theory Spec2Isabelle
  imports Main "HOL-Library.Word" "HOL-Library.Log_Nat"
begin

section \<open>Data model\<close>

text \<open>
  The orchestrator talks to a ledger RPC client, a faucet and a few library functions.
  None of them is part of the repository, so they are collaborators: every call is a
  function of an abstract world \<open>'w\<close> that returns a response and the next world.
  A response of the form \<open>Inl e\<close> is the JavaScript call throwing \<open>e\<close>.
  JavaScript \<open>bigint\<close> values are \<open>int\<close>; hex strings and addresses are \<open>string\<close>;
  a \<open>Uint8Array\<close> is a list of bytes.
\<close>

type_synonym hex = string
type_synonym bytes = "8 word list"

datatype error = Error string | ContractDeploymentError string string

fun error_message :: "error \<Rightarrow> string" where
  "error_message (Error m) = m"
| "error_message (ContractDeploymentError contractType m) =
     ''Failed to deploy '' @ contractType @ '' contract: '' @ m"

text \<open>What \<open>client.getCode\<close> may hand back: \<open>null\<close>/\<open>undefined\<close>, a byte array or a hex string.\<close>

datatype code = CodeNull | CodeBytes bytes | CodeString string

datatype js_value = JsNumber int | JsString string | JsBytes bytes

record receipt =
  rc_status :: string

text \<open>The \<open>{address, hash}\<close> (or \<open>{hash, address}\<close>) object a deployment hands back.\<close>

record deployment =
  dep_hash :: hex
  dep_address :: hex

text \<open>A JavaScript number that is a finite double: \<open>mant * 2 ^ expo\<close> with \<open>\<bar>mant\<bar> < 2 ^ 53\<close>.\<close>

datatype double = Double (mant: int) (expo: int)

record deploy_request =
  dr_bytecode :: hex
  dr_abi :: "string list"
  dr_args :: "js_value list"
  dr_feeCredit :: int
  dr_salt :: int
  dr_shardId :: int

record external_tx =
  tx_to :: bytes
  tx_request :: deploy_request
  tx_chainId :: int

text \<open>
  One event per effect, in program order. The first argument of a ledger event is the shard
  of the \<open>PublicClient\<close> the call went through.
\<close>

datatype event =
    EvGetBalance int hex "error + int"
  | EvTopUp hex int "string option" "error + unit"
  | EvGetCode int hex "error + code"
  | EvGetGasPrice int int "error + int"
  | EvChainId int "error + int"
  | EvWaitTillCompleted int hex "error + unit"
  | EvGetReceipt int hex "error + receipt option"
  | EvGenerateSmartAccount int "error + hex"
  | EvAccountDeploy hex deploy_request "error + deployment"
  | EvExternalDeploymentTransaction deploy_request int "error + external_tx"
  | EvSend int external_tx "error + hex"
  | EvMathRandom double
  | EvRandomBytes nat bytes
  | EvGenerateKeyPair "error + bytes \<times> bytes"
  | EvSleep nat
  | EvLog string

record 'w collab =
  getBalance :: "int \<Rightarrow> hex \<Rightarrow> 'w \<Rightarrow> (error + int) \<times> 'w"
  topUp :: "hex \<Rightarrow> int \<Rightarrow> string option \<Rightarrow> 'w \<Rightarrow> (error + unit) \<times> 'w"
  getCode :: "int \<Rightarrow> hex \<Rightarrow> 'w \<Rightarrow> (error + code) \<times> 'w"
  getGasPrice :: "int \<Rightarrow> int \<Rightarrow> 'w \<Rightarrow> (error + int) \<times> 'w"
  clientChainId :: "int \<Rightarrow> 'w \<Rightarrow> (error + int) \<times> 'w"
  waitTillCompleted :: "int \<Rightarrow> hex \<Rightarrow> 'w \<Rightarrow> (error + unit) \<times> 'w"
  getTransactionReceiptByHash :: "int \<Rightarrow> hex \<Rightarrow> 'w \<Rightarrow> (error + receipt option) \<times> 'w"
  generateSmartAccount :: "int \<Rightarrow> 'w \<Rightarrow> (error + hex) \<times> 'w"
  accountDeployContract :: "hex \<Rightarrow> deploy_request \<Rightarrow> 'w \<Rightarrow> (error + deployment) \<times> 'w"
  externalDeploymentTransaction :: "deploy_request \<Rightarrow> int \<Rightarrow> error + external_tx"
  send :: "int \<Rightarrow> external_tx \<Rightarrow> 'w \<Rightarrow> (error + hex) \<times> 'w"
  mathRandom :: "'w \<Rightarrow> double \<times> 'w"
  randomBytes :: "nat \<Rightarrow> 'w \<Rightarrow> bytes \<times> 'w"
  generateKeyPair :: "'w \<Rightarrow> (error + bytes \<times> bytes) \<times> 'w"
  hexToBytes :: "hex \<Rightarrow> error + bytes"

section \<open>Sequencing effects\<close>

text \<open>
  A routine maps the world to its result, the next world and the events it emitted.
  \<open>await\<close> is sequential composition.
\<close>

type_synonym ('w, 'a) routine = "'w \<Rightarrow> 'a \<times> 'w \<times> event list"

definition yield :: "'a \<Rightarrow> ('w, 'a) routine" where
  "yield a w = (a, w, [])"

definition andThen :: "('w, 'a) routine \<Rightarrow> ('a \<Rightarrow> ('w, 'b) routine) \<Rightarrow> ('w, 'b) routine" where
  "andThen m f w =
     (case m w of (a, w1, e1) \<Rightarrow> (case f a w1 of (b, w2, e2) \<Rightarrow> (b, w2, e1 @ e2)))"

definition perform :: "('w \<Rightarrow> 'r \<times> 'w) \<Rightarrow> ('r \<Rightarrow> event) \<Rightarrow> ('w, 'r) routine" where
  "perform call ev w = (case call w of (r, w') \<Rightarrow> (r, w', [ev r]))"

definition observe :: "'r \<Rightarrow> ('r \<Rightarrow> event) \<Rightarrow> ('w, 'r) routine" where
  "observe r ev w = (r, w, [ev r])"

definition sleep :: "nat \<Rightarrow> ('w, unit) routine" where
  "sleep ms w = ((), w, [EvSleep ms])"

definition logMessage :: "string \<Rightarrow> ('w, unit) routine" where
  "logMessage m w = ((), w, [EvLog m])"

text \<open>Division of \<open>bigint\<close> values truncates toward zero.\<close>

definition bigint_div :: "int \<Rightarrow> int \<Rightarrow> int" where
  "bigint_div a b = sgn a * sgn b * (\<bar>a\<bar> div \<bar>b\<bar>)"

section \<open>FundingGuard\<close>

subsection \<open>\<open>ensureAdequateFunding\<close> (nil-contract provider)\<close>

text \<open>
  The \<open>for\<close> loop over the three candidate amounts. An exception of \<open>topUp\<close> or of the
  balance read after it is caught inside the loop, which then continues with the next
  amount; the 2 s pause is only reached when the new balance is still too small.
\<close>

fun topUpAttempts :: "'w collab \<Rightarrow> int \<Rightarrow> hex \<Rightarrow> int \<Rightarrow> int list \<Rightarrow> ('w, bool) routine" where
  "topUpAttempts c client address requiredAmount [] = yield False"
| "topUpAttempts c client address requiredAmount (amount # rest) =
     andThen (perform (topUp c address amount (Some ''NIL'')) (EvTopUp address amount (Some ''NIL'')))
       (\<lambda>r. case r of
          Inl e \<Rightarrow> topUpAttempts c client address requiredAmount rest
        | Inr u \<Rightarrow>
            andThen (perform (getBalance c client address) (EvGetBalance client address))
              (\<lambda>b. case b of
                 Inl e \<Rightarrow> topUpAttempts c client address requiredAmount rest
               | Inr newBalance \<Rightarrow>
                   if newBalance \<ge> requiredAmount then yield True
                   else andThen (sleep 2000)
                          (\<lambda>u. topUpAttempts c client address requiredAmount rest)))"

definition attempts :: "int \<Rightarrow> int list" where
  "attempts requiredAmount = [requiredAmount * 2, requiredAmount, bigint_div requiredAmount 2]"

definition ensureAdequateFunding :: "'w collab \<Rightarrow> hex \<Rightarrow> int \<Rightarrow> int \<Rightarrow> ('w, bool) routine" where
  "ensureAdequateFunding c address requiredAmount client =
     andThen (perform (getBalance c client address) (EvGetBalance client address))
       (\<lambda>r. case r of
          Inl e \<Rightarrow> yield False
        | Inr currentBalance \<Rightarrow>
            if currentBalance \<ge> requiredAmount then yield True
            else topUpAttempts c client address requiredAmount (attempts requiredAmount))"

subsection \<open>\<open>tryTopUp\<close> (earlier nil-contract provider)\<close>

text \<open>
  \<open>tryTopUp\<close> counts \<open>i\<close> from 0 up to \<open>retries\<close>; the model counts the iterations that
  are left. It reads no balance: the first faucet call that does not throw ends it with
  \<open>true\<close>, a throwing call halves the amount.
\<close>

fun tryTopUp_loop :: "'w collab \<Rightarrow> hex \<Rightarrow> int \<Rightarrow> nat \<Rightarrow> ('w, bool) routine" where
  "tryTopUp_loop c address amount 0 = yield False"
| "tryTopUp_loop c address amount (Suc left) =
     andThen (perform (topUp c address amount None) (EvTopUp address amount None))
       (\<lambda>r. case r of
          Inr u \<Rightarrow> andThen (sleep 5000) (\<lambda>u. yield True)
        | Inl e \<Rightarrow> andThen (sleep 3000)
                     (\<lambda>u. tryTopUp_loop c address (bigint_div amount 2) left))"

definition tryTopUp :: "'w collab \<Rightarrow> hex \<Rightarrow> int \<Rightarrow> nat \<Rightarrow> ('w, bool) routine" where
  "tryTopUp c address initialAmount retries = tryTopUp_loop c address initialAmount retries"

section \<open>ConfirmationPoller\<close>

text \<open>\<open>isEmptyCode\<close> of the nil-contract and supply-chain providers.\<close>

fun isEmptyCode :: "code \<Rightarrow> bool" where
  "isEmptyCode CodeNull = True"
| "isEmptyCode (CodeBytes bs) = (length bs = 0)"
| "isEmptyCode (CodeString s) = (s = ''0x'' \<or> s = '''')"

text \<open>
  The code-polling loop of \<open>waitForContractDeployment\<close>: \<open>attempt\<close> runs from 1 to 30;
  the pause after attempt \<open>k < 30\<close> is \<open>min (5 + k) 30\<close> seconds. An exception of
  \<open>getCode\<close> leaves the loop through the enclosing \<open>catch\<close>, which returns \<open>false\<close>.
\<close>

function codePolling :: "'w collab \<Rightarrow> int \<Rightarrow> hex \<Rightarrow> nat \<Rightarrow> ('w, bool) routine" where
  "codePolling c client address attempt =
     (if attempt \<le> 30 then
        andThen (perform (getCode c client address) (EvGetCode client address))
          (\<lambda>r. case r of
             Inl e \<Rightarrow> yield False
           | Inr code \<Rightarrow>
               if \<not> isEmptyCode code then yield True
               else if attempt < 30 then
                 andThen (sleep (min (5 + attempt) 30 * 1000))
                   (\<lambda>u. codePolling c client address (attempt + 1))
               else codePolling c client address (attempt + 1))
      else yield False)"
  by pat_completeness auto
termination
  by (relation "measure (\<lambda>(c, client, address, attempt). 31 - attempt)") auto

declare codePolling.simps [simp del]

definition waitForContractDeployment :: "'w collab \<Rightarrow> int \<Rightarrow> hex \<Rightarrow> hex \<Rightarrow> ('w, bool) routine" where
  "waitForContractDeployment c client address hash =
     andThen (perform (waitTillCompleted c client hash) (EvWaitTillCompleted client hash))
       (\<lambda>r. case r of
          Inl e \<Rightarrow> yield False
        | Inr u \<Rightarrow>
            andThen (perform (getTransactionReceiptByHash c client hash) (EvGetReceipt client hash))
              (\<lambda>r. case r of
                 Inl e \<Rightarrow> yield False
               | Inr None \<Rightarrow> yield False
               | Inr (Some receipt) \<Rightarrow>
                   if rc_status receipt = ''InsufficientFunds'' then yield False
                   else if rc_status receipt \<noteq> ''Success'' then yield False
                   else codePolling c client address 1))"




section \<open>Salt\<close>

subsection \<open>JavaScript numbers\<close>

text \<open>
  \<open>Math.random() * 10000\<close> is a multiplication of doubles: the exact product, rounded to
  53 significant bits, ties to even. The exponent range of doubles is not modelled (the
  products here are below 10000). \<open>Math.floor\<close> followed by \<open>BigInt\<close> is the integer floor.
\<close>

definition round_shift :: "int \<Rightarrow> nat \<Rightarrow> int" where
  "round_shift p s =
     (let q = p div 2 ^ s; r = p mod 2 ^ s
      in if 2 * r < 2 ^ s then q
         else if 2 * r > 2 ^ s then q + 1
         else if even q then q else q + 1)"

definition to_double :: "int \<Rightarrow> int \<Rightarrow> double" where
  "to_double p e =
     (if bitlen \<bar>p\<bar> \<le> 53 then Double p e
      else Double (round_shift p (nat (bitlen \<bar>p\<bar> - 53))) (e + (bitlen \<bar>p\<bar> - 53)))"

definition js_multiply :: "double \<Rightarrow> double \<Rightarrow> double" where
  "js_multiply x y = to_double (mant x * mant y) (expo x + expo y)"

definition math_floor :: "double \<Rightarrow> int" where
  "math_floor x =
     (if expo x \<ge> 0 then mant x * 2 ^ nat (expo x) else mant x div 2 ^ nat (- expo x))"

text \<open>The results \<open>Math.random\<close> may give: a double \<open>x\<close> with \<open>0 \<le> x < 1\<close>.\<close>

definition in_unit_interval :: "double \<Rightarrow> bool" where
  "in_unit_interval x =
     (0 \<le> mant x \<and> mant x < 2 ^ 53 \<and>
      (mant x = 0 \<or> (expo x < 0 \<and> mant x < 2 ^ nat (- expo x))))"

subsection \<open>\<open>generateRandomSalt\<close>\<close>

text \<open>
  The nil-contract provider, the supply-chain provider and the deploy script all compute
  \<open>BigInt(Math.floor(Math.random() * 10000))\<close>.
\<close>

definition generateRandomSalt :: "'w collab \<Rightarrow> ('w, int) routine" where
  "generateRandomSalt c =
     andThen (perform (mathRandom c) EvMathRandom)
       (\<lambda>r. yield (math_floor (js_multiply r (Double 10000 0))))"

text \<open>
  The earlier provider: \<open>BigInt('0x' + crypto.randomBytes(8).toString('hex'))\<close>.
  \<open>BigInt\<close> of a string that is not a hexadecimal literal throws a \<open>SyntaxError\<close>.
\<close>

definition hex_digit :: "nat \<Rightarrow> char" where
  "hex_digit n = ''0123456789abcdef'' ! (n mod 16)"

definition byte_to_hex :: "8 word \<Rightarrow> string" where
  "byte_to_hex b = [hex_digit (unat b div 16), hex_digit (unat b mod 16)]"

definition buffer_toString_hex :: "bytes \<Rightarrow> string" where
  "buffer_toString_hex bs = concat (map byte_to_hex bs)"

definition hex_digit_value :: "char \<Rightarrow> nat option" where
  "hex_digit_value ch = map_of (zip ''0123456789abcdefABCDEF''
     [0, 1, 2, 3, 4, 5, 6, 7, 8, 9, 10, 11, 12, 13, 14, 15, 10, 11, 12, 13, 14, 15]) ch"

fun hex_digits_value :: "int \<Rightarrow> string \<Rightarrow> int option" where
  "hex_digits_value acc [] = Some acc"
| "hex_digits_value acc (ch # rest) =
     (case hex_digit_value ch of
        None \<Rightarrow> None
      | Some d \<Rightarrow> hex_digits_value (acc * 16 + int d) rest)"

definition BigInt_of_hex_literal :: "string \<Rightarrow> error + int" where
  "BigInt_of_hex_literal s =
     (if take 2 s = ''0x'' \<and> drop 2 s \<noteq> [] then
        (case hex_digits_value 0 (drop 2 s) of
           None \<Rightarrow> Inl (Error ''SyntaxError'')
         | Some v \<Rightarrow> Inr v)
      else Inl (Error ''SyntaxError''))"

text \<open>The unsigned big-endian value of a byte sequence, continuing from \<open>acc\<close>.\<close>

fun bigEndian :: "int \<Rightarrow> bytes \<Rightarrow> int" where
  "bigEndian acc [] = acc"
| "bigEndian acc (b # bs) = bigEndian (acc * 256 + uint b) bs"

definition generateRandomSalt_crypto :: "'w collab \<Rightarrow> ('w, error + int) routine" where
  "generateRandomSalt_crypto c =
     andThen (perform (randomBytes c 8) (EvRandomBytes 8))
       (\<lambda>buf. yield (BigInt_of_hex_literal (''0x'' @ buffer_toString_hex buf)))"

section \<open>AddressDeriver\<close>

definition bytesToHex :: "bytes \<Rightarrow> hex" where
  "bytesToHex bs = ''0x'' @ concat (map byte_to_hex bs)"

record envelope =
  env_isDeploy :: bool
  env_chainId :: int
  env_to :: bytes
  env_data :: bytes
  env_authData :: bytes
  env_seqno :: int

text \<open>
  \<open>calculateContractAddress\<close> of the nil-contract provider. It builds an
  \<open>ExternalTransactionEnvelope\<close> whose \<open>to\<close> field is \<open>new Uint8Array(20)\<close> and returns
  that field as hex. \<open>hexToBytes\<close> is the library's decoder, a parameter of the model:
  when it throws, the \<open>catch\<close> rethrows a \<open>ContractDeploymentError\<close>.
\<close>

definition calculateContractAddress ::
  "(hex \<Rightarrow> error + bytes) \<Rightarrow> int \<Rightarrow> int \<Rightarrow> hex \<Rightarrow> string list \<Rightarrow> int \<Rightarrow> error + hex" where
  "calculateContractAddress decode shardId salt bytecode abi chainId =
     (case decode bytecode of
        Inl e \<Rightarrow>
          Inl (ContractDeploymentError ''unknown''
                 (''Failed to calculate contract address: '' @ error_message e))
      | Inr data \<Rightarrow>
          (let transaction =
                 \<lparr>env_isDeploy = True, env_chainId = chainId, env_to = replicate 20 0,
                  env_data = data, env_authData = [], env_seqno = 0\<rparr>
           in Inr (bytesToHex (env_to transaction))))"

text \<open>A strict decoder, as hex libraries have it: pairs of hex digits after \<open>0x\<close>.\<close>

fun decode_pairs :: "string \<Rightarrow> bytes option" where
  "decode_pairs [] = Some []"
| "decode_pairs [ch] = None"
| "decode_pairs (hi # lo # rest) =
     (case (hex_digit_value hi, hex_digit_value lo, decode_pairs rest) of
        (Some h, Some l, Some bs) \<Rightarrow> Some (word_of_nat (h * 16 + l) # bs)
      | _ \<Rightarrow> None)"

definition strictHexToBytes :: "hex \<Rightarrow> error + bytes" where
  "strictHexToBytes h =
     (case decode_pairs (if take 2 h = ''0x'' then drop 2 h else h) of
        None \<Rightarrow> Inl (Error ''invalid hex string'')
      | Some bs \<Rightarrow> Inr bs)"

section \<open>FeeEstimator\<close>

text \<open>
  The fee credit of \<open>deployContract\<close>. \<open>5n * 10n / 20n\<close> and \<open>12n * 10n / 10n\<close> are
  \<open>bigint\<close> expressions, evaluated left to right.
\<close>

definition contractComplexityMultiplier :: "string \<Rightarrow> int" where
  "contractComplexityMultiplier contractType =
     (if contractType = ''TOKEN'' then 2
      else if contractType = ''NFT'' then bigint_div (5 * 10) 20
      else bigint_div (12 * 10) 10)"

definition feeCreditFor :: "string \<Rightarrow> int \<Rightarrow> int" where
  "feeCreditFor contractType gasPrice = contractComplexityMultiplier contractType * gasPrice"

section \<open>DeploymentStrategySelector\<close>

record deployment_params =
  dp_bytecode :: hex
  dp_abi :: "string list"
  dp_args :: "js_value list"
  dp_feeCredit :: int
  dp_salt :: "int option"
  dp_shardId :: int

definition deployContractExternal ::
  "'w collab \<Rightarrow> int \<Rightarrow> deployment_params \<Rightarrow> int \<Rightarrow> ('w, error + deployment) routine" where
  "deployContractExternal c client params chainId =
     andThen (generateRandomSalt c)
       (\<lambda>salt.
          let request = \<lparr>dr_bytecode = dp_bytecode params, dr_abi = dp_abi params,
                 dr_args = dp_args params, dr_feeCredit = dp_feeCredit params,
                 dr_salt = salt, dr_shardId = dp_shardId params\<rparr>
          in andThen (observe (externalDeploymentTransaction c request chainId)
                        (EvExternalDeploymentTransaction request chainId))
               (\<lambda>r. case r of
                  Inl e \<Rightarrow> yield (Inl e)
                | Inr deploymentTransaction \<Rightarrow>
                    (let contractAddress = bytesToHex (tx_to deploymentTransaction);
                         requiredFunding = dp_feeCredit params * 3
                     in andThen (ensureAdequateFunding c contractAddress requiredFunding client)
                          (\<lambda>fundingSuccess.
                             if \<not> fundingSuccess then
                               yield (Inl (Error
                                 ''Failed to adequately fund contract address after multiple attempts''))
                             else
                               andThen (sleep 5000)
                                 (\<lambda>u. andThen (perform (send c client deploymentTransaction)
                                                  (EvSend client deploymentTransaction))
                                    (\<lambda>r. case r of
                                       Inl e \<Rightarrow> yield (Inl e)
                                     | Inr hash \<Rightarrow>
                                         yield (Inr \<lparr>dep_hash = hash,
                                                     dep_address = contractAddress\<rparr>)))))))"

definition deployContractInternal ::
  "'w collab \<Rightarrow> int \<Rightarrow> deployment_params \<Rightarrow> ('w, error + deployment) routine" where
  "deployContractInternal c client params =
     andThen (perform (getGasPrice c client (dp_shardId params)) (EvGetGasPrice client (dp_shardId params)))
       (\<lambda>r. case r of
          Inl e \<Rightarrow> yield (Inl e)
        | Inr gasPrice \<Rightarrow>
            andThen (generateRandomSalt c)
              (\<lambda>salt.
                 andThen (perform (generateSmartAccount c (dp_shardId params))
                            (EvGenerateSmartAccount (dp_shardId params)))
                   (\<lambda>r. case r of
                      Inl e \<Rightarrow> yield (Inl e)
                    | Inr smartAccount \<Rightarrow>
                        andThen (perform (getBalance c client smartAccount)
                                   (EvGetBalance client smartAccount))
                          (\<lambda>r. case r of
                             Inl e \<Rightarrow> yield (Inl e)
                           | Inr initialBalance \<Rightarrow>
                               (let feeCredit = 1000000 * gasPrice;
                                    request = \<lparr>dr_bytecode = dp_bytecode params,
                                       dr_abi = dp_abi params, dr_args = dp_args params,
                                       dr_feeCredit = feeCredit, dr_salt = salt,
                                       dr_shardId = dp_shardId params\<rparr>
                                in andThen (sleep 5000)
                                     (\<lambda>u. andThen (perform (accountDeployContract c smartAccount request)
                                                      (EvAccountDeploy smartAccount request))
                                        (\<lambda>r. case r of
                                           Inl e \<Rightarrow> yield (Inl e)
                                         | Inr d \<Rightarrow>
                                             andThen (perform (topUp c (dep_address d) (feeCredit * 2) (Some ''NIL''))
                                                        (EvTopUp (dep_address d) (feeCredit * 2) (Some ''NIL'')))
                                               (\<lambda>r. case r of
                                                  Inl e \<Rightarrow> yield (Inl e)
                                                | Inr u \<Rightarrow>
                                                    andThen (sleep 5000)
                                                      (\<lambda>u. yield (Inr \<lparr>dep_hash = dep_hash d,
                                                              dep_address = dep_address d\<rparr>))))))))))"

text \<open>
  The arguments of the \<open>deploy-nil-contract\<close> action. The properties after
  \<open>da_useInternalDeployment\<close> are read by \<open>deployContract\<close> though the schema does not
  declare them; \<open>None\<close> is \<open>undefined\<close>.
\<close>

record deploy_args =
  da_contractType :: string
  da_shardId :: int
  da_constructorArgs :: "js_value list option"
  da_salt :: "int option"
  da_useInternalDeployment :: bool
  da_initialValue :: "js_value option"
  da_maxValue :: "js_value option"
  da_tokenName :: "js_value option"
  da_tokenSymbol :: "js_value option"
  da_tokenDecimals :: "js_value option"
  da_tokenSupply :: "js_value option"
  da_nftName :: "js_value option"
  da_nftSymbol :: "js_value option"
  da_nftBaseUri :: "js_value option"

record contract_details =
  cd_bytecode :: string
  cd_abi :: "string list option"

text \<open>\<open>v || d\<close> on an optional value.\<close>

fun falsy :: "js_value \<Rightarrow> bool" where
  "falsy (JsNumber n) = (n = 0)"
| "falsy (JsString s) = (s = '''')"
| "falsy (JsBytes bs) = False"

definition orDefault :: "js_value option \<Rightarrow> js_value \<Rightarrow> js_value" where
  "orDefault v d = (case v of None \<Rightarrow> d | Some x \<Rightarrow> if falsy x then d else x)"

definition constructorArgsFor :: "deploy_args \<Rightarrow> js_value list" where
  "constructorArgsFor args =
     (if da_contractType args = ''ADVANCED_COUNTER'' then
        [orDefault (da_initialValue args) (JsNumber 0), orDefault (da_maxValue args) (JsNumber 100)]
      else if da_contractType args = ''TOKEN'' then
        [orDefault (da_tokenName args) (JsString ''NIL Token''),
         orDefault (da_tokenSymbol args) (JsString ''NILT''),
         orDefault (da_tokenDecimals args) (JsNumber 18),
         orDefault (da_tokenSupply args) (JsString ''1000000000000000000000000'')]
      else if da_contractType args = ''NFT'' then
        [orDefault (da_nftName args) (JsString ''NIL NFT''),
         orDefault (da_nftSymbol args) (JsString ''NNFT''),
         orDefault (da_nftBaseUri args) (JsString ''https://nil.foundation/nft/'')]
      else (case da_constructorArgs args of None \<Rightarrow> [] | Some xs \<Rightarrow> xs))"

text \<open>The message \<open>deployContract\<close> returns, by kind; the text of the message is not modelled.\<close>

datatype deploy_result =
    ShardNotAvailable int
  | ShardInactive int
  | InternalVerificationTimedOut hex hex
  | DeployedInternal hex hex
  | ExternalFundingIssues hex hex
  | DeployedExternal hex hex

definition fallbackLog :: string where
  "fallbackLog = ''Internal deployment failed, falling back to external deployment:''"

text \<open>The end of \<open>deployContract\<close>: external deployment, as fallback or as primary method.\<close>

definition externalStrategy ::
  "'w collab \<Rightarrow> int \<Rightarrow> deployment_params \<Rightarrow> int \<Rightarrow> ('w, error + deploy_result) routine" where
  "externalStrategy c client deployParams chainId =
     andThen (deployContractExternal c client deployParams chainId)
       (\<lambda>r. case r of
          Inl e \<Rightarrow> yield (Inl e)
        | Inr d \<Rightarrow>
            andThen (waitForContractDeployment c client (dep_address d) (dep_hash d))
              (\<lambda>isDeployed.
                 if \<not> isDeployed then yield (Inr (ExternalFundingIssues (dep_address d) (dep_hash d)))
                 else yield (Inr (DeployedExternal (dep_address d) (dep_hash d)))))"

text \<open>
  \<open>if (args.useInternalDeployment) { try { ... } catch { log } }\<close> followed by the external
  deployment. Inside the \<open>try\<close>, a failed confirmation returns a message; only an exception
  reaches the \<open>catch\<close> and, after it, the external deployment.
\<close>

definition deployStrategies ::
  "'w collab \<Rightarrow> bool \<Rightarrow> int \<Rightarrow> deployment_params \<Rightarrow> int \<Rightarrow> ('w, error + deploy_result) routine" where
  "deployStrategies c useInternal client deployParams chainId =
     (if useInternal then
        andThen (deployContractInternal c client deployParams)
          (\<lambda>r. case r of
             Inl e \<Rightarrow>
               andThen (logMessage fallbackLog)
                 (\<lambda>u. externalStrategy c client deployParams chainId)
           | Inr d \<Rightarrow>
               andThen (waitForContractDeployment c client (dep_address d) (dep_hash d))
                 (\<lambda>isDeployed.
                    if \<not> isDeployed then
                      yield (Inr (InternalVerificationTimedOut (dep_address d) (dep_hash d)))
                    else yield (Inr (DeployedInternal (dep_address d) (dep_hash d)))))
      else externalStrategy c client deployParams chainId)"

text \<open>
  \<open>deployContract\<close> after the shard check: gas price, chain id, fee credit, constructor
  arguments and deployment parameters, then the strategies.
\<close>

definition deployOnShard ::
  "'w collab \<Rightarrow> contract_details \<Rightarrow> deploy_args \<Rightarrow> ('w, error + deploy_result) routine" where
  "deployOnShard c contractDetails args =
     (let client = da_shardId args in
      andThen (perform (getGasPrice c client (da_shardId args)) (EvGetGasPrice client (da_shardId args)))
        (\<lambda>r. case r of
           Inl e \<Rightarrow> yield (Inl e)
         | Inr gasPrice \<Rightarrow>
             andThen (perform (clientChainId c client) (EvChainId client))
               (\<lambda>r. case r of
                  Inl e \<Rightarrow> yield (Inl e)
                | Inr chain \<Rightarrow>
                    (let bytecode = (if take 2 (cd_bytecode contractDetails) = ''0x''
                                     then cd_bytecode contractDetails
                                     else ''0x'' @ cd_bytecode contractDetails);
                         feeCredit = feeCreditFor (da_contractType args) gasPrice;
                         deployParams = \<lparr>dp_bytecode = bytecode,
                            dp_abi = (case cd_abi contractDetails of None \<Rightarrow> [] | Some abi \<Rightarrow> abi),
                            dp_args = constructorArgsFor args, dp_feeCredit = feeCredit,
                            dp_salt = None, dp_shardId = da_shardId args\<rparr>
                     in deployStrategies c (da_useInternalDeployment args) client deployParams chain))))"

text \<open>
  \<open>deployContract\<close> of the nil-contract provider. \<open>CONTRACT_TYPES\<close> is declared in a
  constants module; it is the parameter \<open>contractTypes\<close>. The client of the shard comes
  from \<open>getClient\<close>, modelled in the registry section; here a client is named by its shard.
  Every exception is rethrown as a \<open>ContractDeploymentError\<close>.
\<close>

definition deployContract_try ::
  "'w collab \<Rightarrow> (string \<times> contract_details) list \<Rightarrow> deploy_args \<Rightarrow> ('w, error + deploy_result) routine" where
  "deployContract_try c contractTypes args =
     (if da_contractType args \<notin> set (map fst contractTypes) then
        yield (Inl (ContractDeploymentError (da_contractType args) ''Unknown contract type''))
      else
        (case map_of contractTypes (da_contractType args) of
           None \<Rightarrow>
             yield (Inl (ContractDeploymentError (da_contractType args)
                           ''Contract type details not found''))
         | Some contractDetails \<Rightarrow>
             (let client = da_shardId args in
              if da_shardId args < 1 \<or> da_shardId args > 4 then
                yield (Inr (ShardNotAvailable (da_shardId args)))
              else
                andThen (perform (getGasPrice c client (da_shardId args))
                           (EvGetGasPrice client (da_shardId args)))
                  (\<lambda>r. case r of
                     Inl e \<Rightarrow> deployOnShard c contractDetails args
                   | Inr gasPrice \<Rightarrow>
                       if gasPrice = 0 then yield (Inr (ShardInactive (da_shardId args)))
                       else deployOnShard c contractDetails args))))"

definition deployContract ::
  "'w collab \<Rightarrow> (string \<times> contract_details) list \<Rightarrow> deploy_args \<Rightarrow> ('w, error + deploy_result) routine" where
  "deployContract c contractTypes args =
     andThen (deployContract_try c contractTypes args)
       (\<lambda>r. case r of
          Inl e \<Rightarrow> yield (Inl (ContractDeploymentError (da_contractType args) (error_message e)))
        | Inr message \<Rightarrow> yield (Inr message))"

text \<open>
  An external attempt is the construction of an external deployment transaction: the first
  thing the external strategy of either provider does once it has a salt.
\<close>

fun isExternalAttempt :: "event \<Rightarrow> bool" where
  "isExternalAttempt (EvExternalDeploymentTransaction request chain r) = True"
| "isExternalAttempt ev = False"

definition externalAttempts :: "event list \<Rightarrow> nat" where
  "externalAttempts evs = length (filter isExternalAttempt evs)"

subsection \<open>\<open>deployContract\<close> of the earlier provider\<close>

text \<open>
  The earlier provider tests the code once, with its own \<open>isEmptyCode\<close>: a value that is
  neither a byte array nor one of the two empty strings counts as code.
\<close>

fun isEmptyCode_earlier :: "code \<Rightarrow> bool" where
  "isEmptyCode_earlier CodeNull = False"
| "isEmptyCode_earlier (CodeBytes bs) = (length bs = 0)"
| "isEmptyCode_earlier (CodeString s) = (s = ''0x'' \<or> s = [])"

definition isWhitespace :: "char \<Rightarrow> bool" where
  "isWhitespace ch = (ch \<in> set [CHR '' '', CHR 0x09, CHR 0x0A, CHR 0x0B, CHR 0x0C, CHR 0x0D])"

definition trim :: "string \<Rightarrow> string" where
  "trim s = rev (dropWhile isWhitespace (rev (dropWhile isWhitespace s)))"

definition convertToHex :: "string \<Rightarrow> hex" where
  "convertToHex bytecode =
     (let cleanBytecode = trim bytecode
      in if take 2 cleanBytecode = ''0x'' then cleanBytecode else ''0x'' @ cleanBytecode)"

definition DEFAULT_GAS_MULTIPLIER :: int where
  "DEFAULT_GAS_MULTIPLIER = 1000000"

text \<open>
  The \<open>try\<close> block of the internal deployment: every failure in it, a failed funding and a
  missing code included, is an exception.
\<close>

definition internalAttempt_earlier ::
  "'w collab \<Rightarrow> int \<Rightarrow> deploy_request \<Rightarrow> ('w, error + deploy_result) routine" where
  "internalAttempt_earlier c client request =
     andThen (perform (generateSmartAccount c (dr_shardId request))
                (EvGenerateSmartAccount (dr_shardId request)))
       (\<lambda>r. case r of
          Inl e \<Rightarrow> yield (Inl e)
        | Inr smartAccount \<Rightarrow>
            andThen (tryTopUp c smartAccount (dr_feeCredit request) 3)
              (\<lambda>topUpSuccess.
                 if \<not> topUpSuccess then
                   yield (Inl (Error ''Failed to fund smart account after multiple attempts''))
                 else
                   andThen (perform (accountDeployContract c smartAccount request)
                              (EvAccountDeploy smartAccount request))
                     (\<lambda>r. case r of
                        Inl e \<Rightarrow> yield (Inl e)
                      | Inr d \<Rightarrow>
                          andThen (sleep 5000)
                            (\<lambda>u. andThen (perform (waitTillCompleted c client (dep_hash d))
                                             (EvWaitTillCompleted client (dep_hash d)))
                               (\<lambda>r. case r of
                                  Inl e \<Rightarrow> yield (Inl e)
                                | Inr u \<Rightarrow>
                                    andThen (perform (getCode c client (dep_address d))
                                               (EvGetCode client (dep_address d)))
                                      (\<lambda>r. case r of
                                         Inl e \<Rightarrow> yield (Inl e)
                                       | Inr code \<Rightarrow>
                                           if isEmptyCode_earlier code then
                                             yield (Inl (Error
                                               ''Contract deployment failed - no code at address''))
                                           else yield (Inr (DeployedInternal (dep_address d)
                                                              (dep_hash d)))))))))"

definition externalDeployment_earlier ::
  "'w collab \<Rightarrow> int \<Rightarrow> deploy_request \<Rightarrow> int \<Rightarrow> ('w, error + deploy_result) routine" where
  "externalDeployment_earlier c client request chain =
     andThen (observe (externalDeploymentTransaction c request chain)
                (EvExternalDeploymentTransaction request chain))
       (\<lambda>r. case r of
          Inl e \<Rightarrow> yield (Inl e)
        | Inr deploymentTx \<Rightarrow>
            (let contractAddress = bytesToHex (tx_to deploymentTx) in
             andThen (tryTopUp c contractAddress (dr_feeCredit request) 3)
               (\<lambda>topUpSuccess.
                  if \<not> topUpSuccess then
                    yield (Inl (Error ''Failed to fund contract address after multiple attempts''))
                  else
                    andThen (perform (send c client deploymentTx) (EvSend client deploymentTx))
                      (\<lambda>r. case r of
                         Inl e \<Rightarrow> yield (Inl e)
                       | Inr hash \<Rightarrow>
                           andThen (sleep 5000)
                             (\<lambda>u. andThen (perform (waitTillCompleted c client hash)
                                              (EvWaitTillCompleted client hash))
                                (\<lambda>r. case r of
                                   Inl e \<Rightarrow> yield (Inl e)
                                 | Inr u \<Rightarrow>
                                     andThen (perform (getCode c client contractAddress)
                                                (EvGetCode client contractAddress))
                                       (\<lambda>r. case r of
                                          Inl e \<Rightarrow> yield (Inl e)
                                        | Inr code \<Rightarrow>
                                            if isEmptyCode_earlier code then
                                              yield (Inl (Error
                                                ''Contract deployment failed - no code at address''))
                                            else yield (Inr (DeployedExternal contractAddress
                                                               hash)))))))))"

definition deployStrategies_earlier ::
  "'w collab \<Rightarrow> bool \<Rightarrow> int \<Rightarrow> deploy_request \<Rightarrow> int \<Rightarrow> ('w, error + deploy_result) routine" where
  "deployStrategies_earlier c useInternal client request chain =
     (if useInternal then
        andThen (internalAttempt_earlier c client request)
          (\<lambda>r. case r of
             Inl e \<Rightarrow>
               andThen (logMessage fallbackLog)
                 (\<lambda>u. externalDeployment_earlier c client request chain)
           | Inr message \<Rightarrow> yield (Inr message))
      else externalDeployment_earlier c client request chain)"

text \<open>
  \<open>deployContract\<close> of the earlier provider; a contract type that \<open>CONTRACT_TYPES\<close> does
  not hold makes the read of its bytecode throw a \<open>TypeError\<close>.
\<close>

definition deployContract_earlier ::
  "'w collab \<Rightarrow> (string \<times> contract_details) list \<Rightarrow> deploy_args \<Rightarrow> ('w, error + deploy_result) routine" where
  "deployContract_earlier c contractTypes args =
     andThen
       (let client = da_shardId args in
        andThen (perform (getGasPrice c client (da_shardId args)) (EvGetGasPrice client (da_shardId args)))
          (\<lambda>r. case r of
             Inl e \<Rightarrow> yield (Inl e)
           | Inr gasPrice \<Rightarrow>
               andThen (perform (clientChainId c client) (EvChainId client))
                 (\<lambda>r. case r of
                    Inl e \<Rightarrow> yield (Inl e)
                  | Inr chain \<Rightarrow>
                      andThen (generateRandomSalt_crypto c)
                        (\<lambda>r. case r of
                           Inl e \<Rightarrow> yield (Inl e)
                         | Inr salt \<Rightarrow>
                             (case map_of contractTypes (da_contractType args) of
                                None \<Rightarrow> yield (Inl (Error ''TypeError''))
                              | Some contractConfig \<Rightarrow>
                                  (let request = \<lparr>dr_bytecode = convertToHex (cd_bytecode contractConfig),
                                          dr_abi = (case cd_abi contractConfig of None \<Rightarrow> [] | Some abi \<Rightarrow> abi),
                                          dr_args = (case da_constructorArgs args of None \<Rightarrow> [] | Some xs \<Rightarrow> xs),
                                          dr_feeCredit = DEFAULT_GAS_MULTIPLIER * gasPrice,
                                          dr_salt = salt, dr_shardId = da_shardId args\<rparr>
                                   in deployStrategies_earlier c (da_useInternalDeployment args)
                                        client request chain))))))
       (\<lambda>r. case r of
          Inl e \<Rightarrow> yield (Inl (ContractDeploymentError (da_contractType args) (error_message e)))
        | Inr message \<Rightarrow> yield (Inr message))"

section \<open>Client registry\<close>

text \<open>
  \<open>private clients: Map<number, PublicClient>\<close>. A \<open>PublicClient\<close> is an object: its
  identity is the number of clients the provider had constructed before it. Shard ids are
  integers here.
\<close>

record public_client =
  pc_identity :: nat
  pc_endpoint :: string
  pc_shardId :: int

record provider =
  rpcEndpoint :: string
  faucetEndpoint :: string
  clients :: "int \<rightharpoonup> public_client"
  constructed :: nat

definition getClient :: "int \<Rightarrow> provider \<Rightarrow> public_client option \<times> provider" where
  "getClient shardId p =
     (let p' = (if clients p shardId = None then
                  p\<lparr>clients := (clients p)(shardId \<mapsto>
                       \<lparr>pc_identity = constructed p, pc_endpoint = rpcEndpoint p,
                        pc_shardId = shardId\<rparr>),
                    constructed := constructed p + 1\<rparr>
                else p)
      in (clients p' shardId, p'))"

text \<open>
  The actions of the nil-contract provider, by what they do to the registry: each reads
  \<open>this.clients\<close> through \<open>getClient(args.shardId)\<close> only, once, and only when control
  reaches that line. \<open>deployContract\<close> reaches it when the contract type is known,
  \<open>compileContract\<close> when the compilation succeeded and auto-deploy is on,
  \<open>registerContract\<close> when the compilation succeeded; the other three always do.
\<close>

datatype provider_call =
    CallDeployContract bool int
  | CallVerifyContract int
  | CallCompileContract bool int
  | CallRegisterContract bool int
  | CallContractMethod int
  | CallExecuteContractMethod int

fun registryEffect :: "provider_call \<Rightarrow> provider \<Rightarrow> provider" where
  "registryEffect (CallDeployContract known shardId) p =
     (if known then snd (getClient shardId p) else p)"
| "registryEffect (CallVerifyContract shardId) p = snd (getClient shardId p)"
| "registryEffect (CallCompileContract deploys shardId) p =
     (if deploys then snd (getClient shardId p) else p)"
| "registryEffect (CallRegisterContract compiled shardId) p =
     (if compiled then snd (getClient shardId p) else p)"
| "registryEffect (CallContractMethod shardId) p = snd (getClient shardId p)"
| "registryEffect (CallExecuteContractMethod shardId) p = snd (getClient shardId p)"

fun afterCalls :: "provider_call list \<Rightarrow> provider \<Rightarrow> provider" where
  "afterCalls [] p = p"
| "afterCalls (call # calls) p = afterCalls calls (registryEffect call p)"

section \<open>DependentDeploymentSequencer\<close>

subsection \<open>The deploy script\<close>







subsection \<open>\<open>deployRetailerContract\<close> of the supply-chain provider\<close>





subsection \<open>\<open>deployManufacturerContract\<close> of the supply-chain provider\<close>







section \<open>Reading the event list\<close>

definition result_of :: "'a \<times> 'w \<times> event list \<Rightarrow> 'a" where
  "result_of run = fst run"

definition events_of :: "'a \<times> 'w \<times> event list \<Rightarrow> event list" where
  "events_of run = snd (snd run)"

text \<open>The amounts of the faucet requests, in the order they were issued.\<close>

fun faucetAmounts :: "event list \<Rightarrow> int list" where
  "faucetAmounts [] = []"
| "faucetAmounts (EvTopUp a amount tok r # evs) = amount # faucetAmounts evs"
| "faucetAmounts (ev # evs) = faucetAmounts evs"

fun isBalanceRead :: "event \<Rightarrow> bool" where
  "isBalanceRead (EvGetBalance client a r) = True"
| "isBalanceRead ev = False"

text \<open>A balance read that answered with at least \<open>required\<close>.\<close>

fun sufficientRead :: "int \<Rightarrow> event \<Rightarrow> bool" where
  "sufficientRead required (EvGetBalance client a (Inr b)) = (required \<le> b)"
| "sufficientRead required ev = False"

fun isAcknowledgedTopUp :: "event \<Rightarrow> bool" where
  "isAcknowledgedTopUp (EvTopUp a amount tok (Inr u)) = True"
| "isAcknowledgedTopUp ev = False"

fun isCodePoll :: "event \<Rightarrow> bool" where
  "isCodePoll (EvGetCode client a r) = True"
| "isCodePoll ev = False"

text \<open>A code poll that was answered with code that is not empty.\<close>

fun sawCode :: "event \<Rightarrow> bool" where
  "sawCode (EvGetCode client a (Inr code)) = (\<not> isEmptyCode code)"
| "sawCode ev = False"

text \<open>The pauses, in milliseconds, in the order they were taken.\<close>

fun pauses :: "event list \<Rightarrow> nat list" where
  "pauses [] = []"
| "pauses (EvSleep ms # evs) = ms # pauses evs"
| "pauses (ev # evs) = pauses evs"

text \<open>The pauses between the 30 code polls: 6 s, 7 s, ... up to 30 s, which is then kept.\<close>

definition backoffSchedule :: "nat list" where
  "backoffSchedule = map (\<lambda>attempt. min (5 + attempt) 30 * 1000) [1..<30]"

text \<open>The amounts \<open>tryTopUp\<close> asks for: each is half of the one before.\<close>

fun halvings :: "int \<Rightarrow> nat \<Rightarrow> int list" where
  "halvings amount 0 = []"
| "halvings amount (Suc left) = amount # halvings (bigint_div amount 2) left"


fun isAccountDeploy :: "event \<Rightarrow> bool" where
  "isAccountDeploy (EvAccountDeploy account request r) = True"
| "isAccountDeploy ev = False"





text \<open>
  The fallback policy of \<open>deployContract\<close>, read off the events. In the nil-contract
  provider the strategies start once the chain id has been read. The internal strategy has
  thrown when, after that and before any external attempt, one of the calls that
  \<open>deployContractInternal\<close> makes has thrown: the gas price, the deployer account, its
  balance, the submission, the top-up of the new address. The calls of the confirmation
  (\<open>waitTillCompleted\<close>, the receipt, the code polls) are not among them.
\<close>

fun chainIdAnswered :: "event \<Rightarrow> bool" where
  "chainIdAnswered (EvChainId client (Inr n)) = True"
| "chainIdAnswered ev = False"

fun internalCallThrew :: "event \<Rightarrow> bool" where
  "internalCallThrew (EvGetGasPrice client shard (Inl e)) = True"
| "internalCallThrew (EvGenerateSmartAccount shard (Inl e)) = True"
| "internalCallThrew (EvGetBalance client a (Inl e)) = True"
| "internalCallThrew (EvAccountDeploy account request (Inl e)) = True"
| "internalCallThrew (EvTopUp a amount tok (Inl e)) = True"
| "internalCallThrew ev = False"

definition strategyEvents :: "event list \<Rightarrow> event list" where
  "strategyEvents evs = drop 1 (dropWhile (\<lambda>ev. \<not> chainIdAnswered ev) evs)"

definition internalThrew :: "event list \<Rightarrow> bool" where
  "internalThrew evs =
     list_ex internalCallThrew (takeWhile (\<lambda>ev. \<not> isExternalAttempt ev) (strategyEvents evs))"

text \<open>The events before the fallback is logged; all of them when it never is.\<close>

definition beforeFallback :: "event list \<Rightarrow> event list" where
  "beforeFallback evs = takeWhile (\<lambda>ev. ev \<noteq> EvLog fallbackLog) evs"

text \<open>
  In the earlier provider the internal deployment starts with the creation of the deployer
  account. It has failed when, before any external attempt, the account creation, the
  submission, the wait or the code read has thrown, the code read has returned empty code,
  or three faucet requests have been rejected, which is \<open>tryTopUp\<close> giving up.
\<close>

fun internalStepFailed_earlier :: "event \<Rightarrow> bool" where
  "internalStepFailed_earlier (EvGenerateSmartAccount shard (Inl e)) = True"
| "internalStepFailed_earlier (EvAccountDeploy account request (Inl e)) = True"
| "internalStepFailed_earlier (EvWaitTillCompleted client h (Inl e)) = True"
| "internalStepFailed_earlier (EvGetCode client a (Inl e)) = True"
| "internalStepFailed_earlier (EvGetCode client a (Inr code)) = isEmptyCode_earlier code"
| "internalStepFailed_earlier ev = False"

fun isRejectedTopUp :: "event \<Rightarrow> bool" where
  "isRejectedTopUp (EvTopUp a amount tok (Inl e)) = True"
| "isRejectedTopUp ev = False"

fun isSmartAccountCreation :: "event \<Rightarrow> bool" where
  "isSmartAccountCreation (EvGenerateSmartAccount shard r) = True"
| "isSmartAccountCreation ev = False"

definition internalFailed_earlier :: "event list \<Rightarrow> bool" where
  "internalFailed_earlier evs =
     (let internal = takeWhile (\<lambda>ev. \<not> isExternalAttempt ev) evs
      in list_ex internalStepFailed_earlier internal \<or> length (filter isRejectedTopUp internal) = 3)"

text \<open>
  The kinds of events the parts of a deployment emit: the reads before the strategies, the
  funding by \<open>tryTopUp\<close>, and the confirmation.
\<close>

fun preambleEvent :: "event \<Rightarrow> bool" where
  "preambleEvent (EvGetGasPrice client shard r) = True"
| "preambleEvent (EvChainId client r) = True"
| "preambleEvent (EvRandomBytes n bs) = True"
| "preambleEvent ev = False"

fun fundingEvent :: "event \<Rightarrow> bool" where
  "fundingEvent (EvTopUp a amount tok r) = True"
| "fundingEvent (EvSleep ms) = True"
| "fundingEvent ev = False"

fun confirmationEvent :: "event \<Rightarrow> bool" where
  "confirmationEvent (EvGetCode client a r) = True"
| "confirmationEvent (EvSleep ms) = True"
| "confirmationEvent (EvWaitTillCompleted client h r) = True"
| "confirmationEvent (EvGetReceipt client h r) = True"
| "confirmationEvent ev = False"

section \<open>Scenarios\<close>

text \<open>
  Concrete collaborators, to run the routines on. In \<open>testnet\<close> the world is the balance
  every address shows; the faucet credits what it is asked for, every transaction
  succeeds and code is visible at once.
\<close>

definition testnet :: "int collab" where
  "testnet =
     \<lparr>getBalance = (\<lambda>client a w. (Inr w, w)),
      topUp = (\<lambda>a amount tok w. (Inr (), w + amount)),
      getCode = (\<lambda>client a w. (Inr (CodeString ''0x6080''), w)),
      getGasPrice = (\<lambda>client shard w. (Inr 10, w)),
      clientChainId = (\<lambda>client w. (Inr 1, w)),
      waitTillCompleted = (\<lambda>client h w. (Inr (), w)),
      getTransactionReceiptByHash = (\<lambda>client h w. (Inr (Some \<lparr>rc_status = ''Success''\<rparr>), w)),
      generateSmartAccount = (\<lambda>shard w. (Inr ''0xacc'', w)),
      accountDeployContract =
        (\<lambda>account request w. (Inr \<lparr>dep_hash = ''0x11'', dep_address = ''0xc1''\<rparr>, w)),
      externalDeploymentTransaction =
        (\<lambda>request n. Inr \<lparr>tx_to = [1, 2], tx_request = request, tx_chainId = n\<rparr>),
      send = (\<lambda>client tx w. (Inr ''0x22'', w)),
      mathRandom = (\<lambda>w. (Double 1 (- 1), w)),
      randomBytes = (\<lambda>n w. (replicate n 255, w)),
      generateKeyPair = (\<lambda>w. (Inr ([7], [8]), w)),
      hexToBytes = strictHexToBytes\<rparr>"

text \<open>A faucet that acknowledges every request and credits nothing.\<close>

definition idleFaucet :: "int collab" where
  "idleFaucet = testnet\<lparr>topUp := (\<lambda>a amount tok w. (Inr (), w))\<rparr>"

text \<open>A faucet that rejects every request.\<close>

definition closedFaucet :: "int collab" where
  "closedFaucet = testnet\<lparr>topUp := (\<lambda>a amount tok w. (Inl (Error ''faucet unavailable''), w))\<rparr>"

text \<open>A ledger on which code never becomes visible.\<close>

definition silentLedger :: "int collab" where
  "silentLedger = testnet\<lparr>getCode := (\<lambda>client a w. (Inr (CodeString ''0x''), w))\<rparr>"

text \<open>A ledger whose receipts report insufficient funds.\<close>

definition poorLedger :: "int collab" where
  "poorLedger = testnet\<lparr>getTransactionReceiptByHash :=
     (\<lambda>client h w. (Inr (Some \<lparr>rc_status = ''InsufficientFunds''\<rparr>), w))\<rparr>"

text \<open>A ledger on which the deployer account cannot submit.\<close>

definition rejectingLedger :: "int collab" where
  "rejectingLedger = testnet\<lparr>accountDeployContract :=
     (\<lambda>account request w. (Inl (Error ''submission failed''), w))\<rparr>"

text \<open>The arguments of an internal and of an external deployment of a counter.\<close>

definition counterTypes :: "(string \<times> contract_details) list" where
  "counterTypes = [(''COUNTER'', \<lparr>cd_bytecode = ''6080'', cd_abi = Some []\<rparr>)]"

definition externalCounter :: deploy_args where
  "externalCounter =
     \<lparr>da_contractType = ''COUNTER'', da_shardId = 1, da_constructorArgs = None, da_salt = None,
      da_useInternalDeployment = False, da_initialValue = None, da_maxValue = None,
      da_tokenName = None, da_tokenSymbol = None, da_tokenDecimals = None,
      da_tokenSupply = None, da_nftName = None, da_nftSymbol = None, da_nftBaseUri = None\<rparr>"

definition internalCounter :: deploy_args where
  "internalCounter = externalCounter\<lparr>da_useInternalDeployment := True\<rparr>"

text \<open>
  The request of the internal deployment of that counter at gas price 10 with salt 5000,
  the same request with the salt of the earlier provider, and the transaction the
  library builds for a request.
\<close>

definition counterRequest :: deploy_request where
  "counterRequest =
     \<lparr>dr_bytecode = ''0x6080'', dr_abi = [], dr_args = [], dr_feeCredit = 10000000,
      dr_salt = 5000, dr_shardId = 1\<rparr>"

definition cryptoRequest :: deploy_request where
  "cryptoRequest = counterRequest\<lparr>dr_salt := 18446744073709551615\<rparr>"

definition counterTx :: "deploy_request \<Rightarrow> external_tx" where
  "counterTx request = \<lparr>tx_to = [1, 2], tx_request = request, tx_chainId = 1\<rparr>"




text \<open>A provider that has not handed out a client yet.\<close>

definition freshProvider :: provider where
  "freshProvider = \<lparr>rpcEndpoint = ''https://rpc'', faucetEndpoint = ''https://faucet'',
     clients = Map.empty, constructed = 0\<rparr>"

section \<open>Properties\<close>

subsection \<open>Auxiliary facts\<close>

lemmas run_defs = andThen_def perform_def yield_def sleep_def observe_def logMessage_def

lemma faucetAmounts_append: "faucetAmounts (xs @ ys) = faucetAmounts xs @ faucetAmounts ys"
  by (induction xs rule: faucetAmounts.induct) auto

lemma pauses_append: "pauses (xs @ ys) = pauses xs @ pauses ys"
  by (induction xs rule: pauses.induct) auto

subsection \<open>The polling loop\<close>

lemma codePolling_bounds:
  "codePolling c client address attempt w = (r, w', evs) \<Longrightarrow>
     length (filter isCodePoll evs) \<le> 31 - attempt
     \<and> pauses evs = take (length (pauses evs)) (map (\<lambda>k. min (5 + k) 30 * 1000) [attempt..<30])
     \<and> (r \<longleftrightarrow> filter sawCode evs \<noteq> [])"
proof (induction c client address attempt arbitrary: w r w' evs rule: codePolling.induct)
  case (1 c client address attempt)
  show ?case
  proof (cases "attempt \<le> 30")
    case False
    with "1.prems" show ?thesis
      by (simp add: codePolling.simps [of c client address attempt] yield_def)
  next
    case le: True
    obtain res w1 where call: "getCode c client address w = (res, w1)"
      by (cases "getCode c client address w")
    show ?thesis
    proof (cases res)
      case (Inl e)
      with "1.prems" le call show ?thesis
        by (auto simp add: codePolling.simps [of c client address attempt] run_defs)
    next
      case (Inr code)
      show ?thesis
      proof (cases "isEmptyCode code")
        case False
        with "1.prems" le call Inr show ?thesis
          by (auto simp add: codePolling.simps [of c client address attempt] run_defs)
      next
        case empty: True
        show ?thesis
        proof (cases "attempt < 30")
          case True
          obtain r2 w2 evs2 where rest: "codePolling c client address (attempt + 1) w1 = (r2, w2, evs2)"
            by (cases "codePolling c client address (attempt + 1) w1")
          have nn: "\<not> \<not> isEmptyCode code" using empty by simp
          from "1.IH"(1) [OF le nn True rest]
          have ih: "length (filter isCodePoll evs2) \<le> 31 - (attempt + 1)"
            "pauses evs2 = take (length (pauses evs2)) (map (\<lambda>k. min (5 + k) 30 * 1000) [attempt + 1..<30])"
            "r2 \<longleftrightarrow> filter sawCode evs2 \<noteq> []"
            by simp_all
          from "1.prems" le call Inr empty True rest
          have evs: "evs = EvGetCode client address (Inr code) # EvSleep (min (5 + attempt) 30 * 1000) # evs2"
            and r: "r = r2"
            by (auto simp add: codePolling.simps [of c client address attempt] run_defs)
          have upt: "[attempt..<30] = attempt # [attempt + 1..<30]"
            using True by (simp add: upt_conv_Cons)
          show ?thesis
            using ih True empty unfolding evs r upt
            by (auto simp del: upt_Suc)
        next
          case False
          then have eq: "attempt = 30" using le by simp
          from "1.prems" call Inr empty
          show ?thesis unfolding eq
            by (auto simp add: codePolling.simps [of c client address 30]
                  codePolling.simps [of c client address 31] run_defs)
        qed
      qed
    qed
  qed
qed

subsection \<open>The funding loops\<close>

lemma topUpAttempts_true:
  "topUpAttempts c client a req amts w = (True, w', evs) \<Longrightarrow>
    evs \<noteq> [] \<and> sufficientRead req (last evs) \<and> (\<exists>b. last evs = EvGetBalance client a (Inr b))"
proof (induction amts arbitrary: w w' evs)
  case Nil
  then show ?case by (simp add: yield_def)
next
  case (Cons amount rest)
  then show ?case
    apply (simp add: run_defs split: prod.splits sum.splits if_splits)
    apply fastforce+
    done
qed

lemma topUpAttempts_amounts:
  "topUpAttempts c client a req amts w = (r, w', evs) \<Longrightarrow>
    (if r then faucetAmounts evs = take (length (faucetAmounts evs)) amts \<and> faucetAmounts evs \<noteq> []
     else faucetAmounts evs = amts)"
proof (induction amts arbitrary: w w' evs)
  case Nil
  then show ?case by (auto simp add: yield_def)
next
  case (Cons amount rest)
  then show ?case
    apply (simp add: run_defs split: prod.splits sum.splits if_splits)
    apply (fastforce simp: faucetAmounts_append)+
    done
qed

lemma topUpAttempts_stops:
  "topUpAttempts c client a req amts w = (r, w', evs) \<Longrightarrow>
    filter (sufficientRead req) (butlast evs) = [] \<and> (r \<longleftrightarrow> filter (sufficientRead req) evs \<noteq> [])"
proof (induction amts arbitrary: w w' evs r)
  case Nil
  then show ?case by (auto simp add: yield_def)
next
  case (Cons amount rest)
  then show ?case
    apply (simp add: run_defs split: prod.splits sum.splits if_splits)
    apply (fastforce simp: butlast_append)+
    done
qed

lemma tryTopUp_loop_reads:
  "tryTopUp_loop c a amount n w = (r, w', evs) \<Longrightarrow>
     filter isBalanceRead evs = [] \<and> (r \<longleftrightarrow> filter isAcknowledgedTopUp evs \<noteq> [])
     \<and> faucetAmounts evs = take (length (faucetAmounts evs)) (halvings amount n)"
proof (induction n arbitrary: amount w w' evs r)
  case 0
  then show ?case by (auto simp add: yield_def)
next
  case (Suc n)
  then show ?case
    apply (simp add: run_defs split: prod.splits sum.splits if_splits)
    apply (fastforce simp: faucetAmounts_append)+
    done
qed

lemma take_self_length:
  assumes "xs = take (length xs) ys"
  shows "length xs \<le> length ys"
proof -
  have "length xs = min (length xs) (length ys)"
    using arg_cong [OF assms, of length] by (simp only: length_take)
  then show ?thesis by linarith
qed

lemma waitForContractDeployment_bounds:
  assumes run: "waitForContractDeployment c client address hash w = (r, w', evs)"
  shows "length (filter isCodePoll evs) \<le> 30
      \<and> pauses evs = take (length (pauses evs)) backoffSchedule
      \<and> (r \<longleftrightarrow> filter sawCode evs \<noteq> [])"
proof -
  obtain res1 w1 where wait: "waitTillCompleted c client hash w = (res1, w1)"
    by (cases "waitTillCompleted c client hash w")
  obtain res2 w2 where rcpt: "getTransactionReceiptByHash c client hash w1 = (res2, w2)"
    by (cases "getTransactionReceiptByHash c client hash w1")
  obtain r3 w3 evs3 where poll: "codePolling c client address 1 w2 = (r3, w3, evs3)"
    by (cases "codePolling c client address 1 w2")
  note bounds = codePolling_bounds [OF poll]
  have sched: "map (\<lambda>k. min (5 + k) 30 * 1000) [1..<30] = backoffSchedule"
    by (simp add: backoffSchedule_def)
  consider (stop) "evs = [EvWaitTillCompleted client hash res1] \<and> \<not> r"
    | (stop2) "evs = [EvWaitTillCompleted client hash res1, EvGetReceipt client hash res2] \<and> \<not> r"
    | (polled) "evs = EvWaitTillCompleted client hash res1 # EvGetReceipt client hash res2 # evs3 \<and> r = r3"
    using run wait rcpt poll
    by (auto simp add: waitForContractDeployment_def run_defs
          split: sum.splits option.splits if_splits)
  then show ?thesis
  proof cases
    case stop
    then show ?thesis by simp
  next
    case stop2
    then show ?thesis by simp
  next
    case polled
    then show ?thesis using bounds unfolding sched by simp
  qed
qed

lemma ensureAdequateFunding_bounds:
  assumes "ensureAdequateFunding c address requiredAmount client w = (ok, w', evs)"
  shows "length (faucetAmounts evs) \<le> 3"
    and "ok \<longleftrightarrow> filter (sufficientRead requiredAmount) evs \<noteq> []"
proof -
  obtain res w1 where call: "getBalance c client address w = (res, w1)"
    by (cases "getBalance c client address w")
  show "length (faucetAmounts evs) \<le> 3"
  proof (cases res)
    case (Inl e)
    with assms call show ?thesis
      by (auto simp add: ensureAdequateFunding_def run_defs)
  next
    case (Inr b)
    show ?thesis
    proof (cases "requiredAmount \<le> b")
      case True
      with assms call Inr show ?thesis
        by (auto simp add: ensureAdequateFunding_def run_defs)
    next
      case False
      with assms call Inr obtain evs1 where
        loop: "topUpAttempts c client address requiredAmount (attempts requiredAmount) w1 = (ok, w', evs1)"
        and evs: "evs = EvGetBalance client address (Inr b) # evs1"
        by (auto simp add: ensureAdequateFunding_def run_defs split: prod.splits)
      have "faucetAmounts evs1 = take (length (faucetAmounts evs1)) (attempts requiredAmount)"
        using topUpAttempts_amounts [OF loop] by (cases ok) simp_all
      then have "length (faucetAmounts evs1) \<le> length (attempts requiredAmount)"
        by (rule take_self_length)
      then have "length (faucetAmounts evs1) \<le> 3"
        by (simp add: attempts_def)
      then show ?thesis by (simp add: evs)
    qed
  qed
  show "ok \<longleftrightarrow> filter (sufficientRead requiredAmount) evs \<noteq> []"
  proof (cases res)
    case (Inl e)
    with assms call show ?thesis
      by (auto simp add: ensureAdequateFunding_def run_defs)
  next
    case (Inr b)
    show ?thesis
    proof (cases "requiredAmount \<le> b")
      case True
      with assms call Inr show ?thesis
        by (auto simp add: ensureAdequateFunding_def run_defs)
    next
      case False
      with assms call Inr obtain evs1 where
        loop: "topUpAttempts c client address requiredAmount (attempts requiredAmount) w1 = (ok, w', evs1)"
        and evs: "evs = EvGetBalance client address (Inr b) # evs1"
        by (auto simp add: ensureAdequateFunding_def run_defs split: prod.splits)
      show ?thesis
        using topUpAttempts_stops [OF loop] False by (simp add: evs)
    qed
  qed
qed

lemma backoffSchedule_values:
  "backoffSchedule =
     [6000, 7000, 8000, 9000, 10000, 11000, 12000, 13000, 14000, 15000, 16000, 17000, 18000,
      19000, 20000, 21000, 22000, 23000, 24000, 25000, 26000, 27000, 28000, 29000, 30000,
      30000, 30000, 30000, 30000]"
  unfolding backoffSchedule_def by (simp add: upt_rec)

subsection \<open>FundingGuard: the fast path\<close>

text \<open>
  Claim C7. If the first balance read of \<open>ensureAdequateFunding\<close> already shows at least
  the required amount, the routine returns \<open>true\<close> at once: the balance read is its only
  event, so no faucet request is issued.
\<close>

theorem ensureAdequateFunding_fast_path:
  assumes "getBalance c client address w = (Inr balance, w')"
    and "requiredAmount \<le> balance"
  shows "ensureAdequateFunding c address requiredAmount client w =
           (True, w', [EvGetBalance client address (Inr balance)])"
  using assms by (simp add: ensureAdequateFunding_def run_defs)

theorem ensureAdequateFunding_fast_path_witness:
  "ensureAdequateFunding idleFaucet ''0xabc'' 101 1 500 =
     (True, 500, [EvGetBalance 1 ''0xabc'' (Inr 500)])"
  using ensureAdequateFunding_fast_path [of idleFaucet 1 "''0xabc''" 500 500 500 101]
  by (simp add: idleFaucet_def testnet_def)

subsection \<open>FundingGuard: success and the balance read\<close>

text \<open>
  Claim C1, as amended. When \<open>ensureAdequateFunding\<close> returns \<open>true\<close>, its last event is a
  balance read of the target address that showed at least the required amount; being the
  last event, it comes after every faucet request. \<open>tryTopUp\<close> of the earlier provider reads
  no balance at all: it returns \<open>true\<close> exactly when one of its faucet calls returned
  without throwing.
\<close>

theorem funding_success_rests_on_balance_read:
  "(ensureAdequateFunding c address requiredAmount client w = (True, w', evs) \<longrightarrow>
      evs \<noteq> [] \<and> sufficientRead requiredAmount (last evs)
      \<and> (\<exists>b. last evs = EvGetBalance client address (Inr b)))
   \<and> (tryTopUp c2 address2 amount retries v = (ok, v', evs2) \<longrightarrow>
      filter isBalanceRead evs2 = [] \<and> (ok \<longleftrightarrow> filter isAcknowledgedTopUp evs2 \<noteq> []))"
proof (intro conjI impI)
  assume run: "ensureAdequateFunding c address requiredAmount client w = (True, w', evs)"
  obtain res w1 where call: "getBalance c client address w = (res, w1)"
    by (cases "getBalance c client address w")
  show "evs \<noteq> []"
    using run call topUpAttempts_true [of c client address requiredAmount]
    by (auto simp add: ensureAdequateFunding_def run_defs split: sum.splits if_splits prod.splits)
  show "sufficientRead requiredAmount (last evs)"
    using run call topUpAttempts_true [of c client address requiredAmount]
    by (auto simp add: ensureAdequateFunding_def run_defs split: sum.splits if_splits prod.splits)
  show "\<exists>b. last evs = EvGetBalance client address (Inr b)"
    using run call topUpAttempts_true [of c client address requiredAmount]
    by (auto simp add: ensureAdequateFunding_def run_defs split: sum.splits if_splits prod.splits)
next
  assume "tryTopUp c2 address2 amount retries v = (ok, v', evs2)"
  then show "filter isBalanceRead evs2 = []" "ok \<longleftrightarrow> filter isAcknowledgedTopUp evs2 \<noteq> []"
    using tryTopUp_loop_reads [of c2 address2 amount retries v ok v' evs2]
    by (simp_all add: tryTopUp_def)
qed

theorem funding_success_rests_on_balance_read_witness:
  "ensureAdequateFunding testnet ''0xabc'' 100 1 0 =
     (True, 200,
      [EvGetBalance 1 ''0xabc'' (Inr 0), EvTopUp ''0xabc'' 200 (Some ''NIL'') (Inr ()),
       EvGetBalance 1 ''0xabc'' (Inr 200)])
   \<and> sufficientRead 100 (EvGetBalance 1 ''0xabc'' (Inr 200))
   \<and> tryTopUp closedFaucet ''0xabc'' 100 3 0 =
     (False, 0,
      [EvTopUp ''0xabc'' 100 None (Inl (Error ''faucet unavailable'')), EvSleep 3000,
       EvTopUp ''0xabc'' 50 None (Inl (Error ''faucet unavailable'')), EvSleep 3000,
       EvTopUp ''0xabc'' 25 None (Inl (Error ''faucet unavailable'')), EvSleep 3000])"
  using funding_success_rests_on_balance_read
    [of testnet "''0xabc''" 100 1 0 200 
       "[EvGetBalance 1 ''0xabc'' (Inr 0), EvTopUp ''0xabc'' 200 (Some ''NIL'') (Inr ()),
       EvGetBalance 1 ''0xabc'' (Inr 200)]" closedFaucet "''0xabc''" 100 3 0 False 0
       "[EvTopUp ''0xabc'' 100 None (Inl (Error ''faucet unavailable'')), EvSleep 3000,
       EvTopUp ''0xabc'' 50 None (Inl (Error ''faucet unavailable'')), EvSleep 3000,
       EvTopUp ''0xabc'' 25 None (Inl (Error ''faucet unavailable'')), EvSleep 3000]"]
  by (simp add: ensureAdequateFunding_def attempts_def tryTopUp_def closedFaucet_def testnet_def
        run_defs numeral_3_eq_3 bigint_div_def)

text \<open>
  The claim as stated fails on \<open>tryTopUp\<close>: with a faucet that acknowledges and credits
  nothing, it reports success after one request and no balance read.
\<close>

theorem tryTopUp_trusts_acknowledgement:
  "tryTopUp idleFaucet ''0xabc'' 100 3 0 =
     (True, 0, [EvTopUp ''0xabc'' 100 None (Inr ()), EvSleep 5000])"
  by (simp add: tryTopUp_def idleFaucet_def testnet_def run_defs numeral_3_eq_3)

subsection \<open>FundingGuard: the order of the amounts\<close>

text \<open>
  Claim C6, as amended. When the first balance read of \<open>ensureAdequateFunding\<close> shows less
  than the required amount, the faucet requests are a non-empty initial part of: twice the
  required amount, the required amount, half of it rounded toward zero, in this order.
  No balance read before the last event showed enough, a run that returns \<open>true\<close> ends
  with a sufficient balance read, and a run that returns \<open>false\<close> has issued all three
  requests. \<open>tryTopUp\<close> asks for its initial amount first and halves the amount after
  every rejected request.
\<close>

theorem funding_amounts_in_order:
  "(getBalance c client address w = (Inr balance, w0) \<and> balance < requiredAmount
      \<and> ensureAdequateFunding c address requiredAmount client w = (ok, w', evs) \<longrightarrow>
      faucetAmounts evs \<noteq> []
      \<and> faucetAmounts evs = take (length (faucetAmounts evs))
           [requiredAmount * 2, requiredAmount, bigint_div requiredAmount 2]
      \<and> filter (sufficientRead requiredAmount) (butlast evs) = []
      \<and> (if ok then sufficientRead requiredAmount (last evs)
          else faucetAmounts evs = [requiredAmount * 2, requiredAmount, bigint_div requiredAmount 2]))
   \<and> (tryTopUp c2 address2 amount retries v = (ok2, v', evs2) \<longrightarrow>
      faucetAmounts evs2 = take (length (faucetAmounts evs2)) (halvings amount retries))"
proof (intro conjI impI)
  assume a: "getBalance c client address w = (Inr balance, w0) \<and> balance < requiredAmount
      \<and> ensureAdequateFunding c address requiredAmount client w = (ok, w', evs)"
  then obtain evs1 where loop: "topUpAttempts c client address requiredAmount (attempts requiredAmount) w0 = (ok, w', evs1)"
    and evs: "evs = EvGetBalance client address (Inr balance) # evs1"
    by (auto simp add: ensureAdequateFunding_def run_defs split: prod.splits)
  note amounts = topUpAttempts_amounts [OF loop]
  note stops = topUpAttempts_stops [OF loop]
  note true = topUpAttempts_true [of c client address requiredAmount "attempts requiredAmount" w0 w' evs1]
  have ne: "evs1 \<noteq> []"
    using amounts by (cases ok) (auto simp add: attempts_def)
  show "faucetAmounts evs \<noteq> []"
    using amounts by (cases ok) (auto simp add: evs attempts_def)
  show "faucetAmounts evs = take (length (faucetAmounts evs))
           [requiredAmount * 2, requiredAmount, bigint_div requiredAmount 2]"
    using amounts by (cases ok) (auto simp add: evs attempts_def)
  show "filter (sufficientRead requiredAmount) (butlast evs) = []"
    using stops ne a by (simp add: evs)
  show "if ok then sufficientRead requiredAmount (last evs)
          else faucetAmounts evs = [requiredAmount * 2, requiredAmount, bigint_div requiredAmount 2]"
    using amounts true loop ne by (cases ok) (auto simp add: evs attempts_def)
next
  assume "tryTopUp c2 address2 amount retries v = (ok2, v', evs2)"
  then show "faucetAmounts evs2 = take (length (faucetAmounts evs2)) (halvings amount retries)"
    using tryTopUp_loop_reads [of c2 address2 amount retries v ok2 v' evs2]
    by (simp add: tryTopUp_def)
qed

theorem funding_amounts_in_order_witness:
  "getBalance idleFaucet 1 ''0xabc'' 0 = (Inr 0, 0) \<and> (0::int) < 101
   \<and> ensureAdequateFunding idleFaucet ''0xabc'' 101 1 0 =
     (False, 0,
      [EvGetBalance 1 ''0xabc'' (Inr 0),
       EvTopUp ''0xabc'' 202 (Some ''NIL'') (Inr ()), EvGetBalance 1 ''0xabc'' (Inr 0), EvSleep 2000,
       EvTopUp ''0xabc'' 101 (Some ''NIL'') (Inr ()), EvGetBalance 1 ''0xabc'' (Inr 0), EvSleep 2000,
       EvTopUp ''0xabc'' 50 (Some ''NIL'') (Inr ()), EvGetBalance 1 ''0xabc'' (Inr 0), EvSleep 2000])
   \<and> tryTopUp idleFaucet ''0xabc'' 100 3 0 =
        (True, 0, [EvTopUp ''0xabc'' 100 None (Inr ()), EvSleep 5000])
   \<and> halvings 100 3 = [100, 50, 25]"
  using funding_amounts_in_order
    [of idleFaucet 1 "''0xabc''" 0 0 0 101 False 0
      "[EvGetBalance 1 ''0xabc'' (Inr 0),
       EvTopUp ''0xabc'' 202 (Some ''NIL'') (Inr ()), EvGetBalance 1 ''0xabc'' (Inr 0), EvSleep 2000,
       EvTopUp ''0xabc'' 101 (Some ''NIL'') (Inr ()), EvGetBalance 1 ''0xabc'' (Inr 0), EvSleep 2000,
       EvTopUp ''0xabc'' 50 (Some ''NIL'') (Inr ()), EvGetBalance 1 ''0xabc'' (Inr 0), EvSleep 2000]"
      idleFaucet "''0xabc''" 100 3 0 True 0 "[EvTopUp ''0xabc'' 100 None (Inr ()), EvSleep 5000]"]
  by (simp add: ensureAdequateFunding_def attempts_def tryTopUp_def idleFaucet_def testnet_def
        run_defs numeral_3_eq_3 bigint_div_def)

text \<open>
  The claim as stated fails on \<open>tryTopUp\<close>: asked for 100 against a faucet that rejects
  everything, it requests 100, 50 and 25.
\<close>

theorem tryTopUp_halves_amounts:
  "faucetAmounts (events_of (tryTopUp closedFaucet ''0xabc'' 100 3 0)) = [100, 50, 25]"
  by (simp add: tryTopUp_def closedFaucet_def testnet_def events_of_def
        run_defs numeral_3_eq_3 bigint_div_def)

subsection \<open>Bounded retries\<close>

text \<open>
  Claim C5. For every collaborator and every world, \<open>waitForContractDeployment\<close> polls the
  code at most 30 times, its pauses are an initial part of the backoff schedule (6 s after
  the first poll, one second more after each, 30 s at most), and it returns \<open>true\<close>
  exactly when a poll saw code; \<open>ensureAdequateFunding\<close> issues at most 3 faucet requests and
  returns \<open>true\<close> exactly when a balance read showed enough, \<open>false\<close> otherwise. Both are
  total functions: they return on every input.
\<close>

theorem retry_loops_are_bounded:
  "length (filter isCodePoll (events_of (waitForContractDeployment c client address hash w))) \<le> 30
   \<and> pauses (events_of (waitForContractDeployment c client address hash w)) =
       take (length (pauses (events_of (waitForContractDeployment c client address hash w))))
         backoffSchedule
   \<and> result_of (waitForContractDeployment c client address hash w) =
       (filter sawCode (events_of (waitForContractDeployment c client address hash w)) \<noteq> [])
   \<and> length (faucetAmounts (events_of (ensureAdequateFunding c2 address2 requiredAmount client2 v))) \<le> 3
   \<and> result_of (ensureAdequateFunding c2 address2 requiredAmount client2 v) =
       (filter (sufficientRead requiredAmount)
          (events_of (ensureAdequateFunding c2 address2 requiredAmount client2 v)) \<noteq> [])"
proof -
  obtain r w' evs where poll: "waitForContractDeployment c client address hash w = (r, w', evs)"
    by (cases "waitForContractDeployment c client address hash w")
  obtain ok v' evs2 where fund: "ensureAdequateFunding c2 address2 requiredAmount client2 v = (ok, v', evs2)"
    by (cases "ensureAdequateFunding c2 address2 requiredAmount client2 v")
  show ?thesis
    using waitForContractDeployment_bounds [OF poll] ensureAdequateFunding_bounds [OF fund]
    by (simp add: poll fund events_of_def result_of_def)
qed

text \<open>
  Collaborators that never succeed: on a ledger where code never appears the poller gives
  up after 30 polls and the whole backoff schedule; against a faucet that rejects every
  request the funding routine gives up after its three requests.
\<close>

lemma silent_polling:
  "codePolling silentLedger 1 ''0xc1'' 1 w =
     (False, w,
      concat (map (\<lambda>ms. [EvGetCode 1 ''0xc1'' (Inr (CodeString ''0x'')), EvSleep ms]) backoffSchedule)
      @ [EvGetCode 1 ''0xc1'' (Inr (CodeString ''0x''))])"
proof -
  have call: "\<And>w. getCode silentLedger 1 ''0xc1'' w = (Inr (CodeString ''0x''), w)"
    by (simp add: silentLedger_def testnet_def)
  show ?thesis
    unfolding backoffSchedule_values
    by (simp add: codePolling.simps call run_defs)
qed

lemma never_succeeding_collaborators:
  "result_of (waitForContractDeployment silentLedger 1 ''0xc1'' ''0x11'' 0) = False
   \<and> length (filter isCodePoll (events_of (waitForContractDeployment silentLedger 1 ''0xc1'' ''0x11'' 0))) = 30
   \<and> pauses (events_of (waitForContractDeployment silentLedger 1 ''0xc1'' ''0x11'' 0)) = backoffSchedule
   \<and> ensureAdequateFunding closedFaucet ''0xabc'' 101 1 0 =
       (False, 0,
        [EvGetBalance 1 ''0xabc'' (Inr 0),
         EvTopUp ''0xabc'' 202 (Some ''NIL'') (Inl (Error ''faucet unavailable'')),
         EvTopUp ''0xabc'' 101 (Some ''NIL'') (Inl (Error ''faucet unavailable'')),
         EvTopUp ''0xabc'' 50 (Some ''NIL'') (Inl (Error ''faucet unavailable''))])"
proof -
  have calls: "waitTillCompleted silentLedger 1 ''0x11'' 0 = (Inr (), 0)"
    "getTransactionReceiptByHash silentLedger 1 ''0x11'' 0 = (Inr (Some \<lparr>rc_status = ''Success''\<rparr>), 0)"
    by (simp_all add: silentLedger_def testnet_def)
  have run: "waitForContractDeployment silentLedger 1 ''0xc1'' ''0x11'' 0 =
      (False, 0, EvWaitTillCompleted 1 ''0x11'' (Inr ()) #
         EvGetReceipt 1 ''0x11'' (Inr (Some \<lparr>rc_status = ''Success''\<rparr>)) #
         events_of (codePolling silentLedger 1 ''0xc1'' 1 0))"
    using silent_polling [of 0]
    by (simp add: waitForContractDeployment_def calls run_defs events_of_def)
  have fund: "ensureAdequateFunding closedFaucet ''0xabc'' 101 1 0 =
       (False, 0,
        [EvGetBalance 1 ''0xabc'' (Inr 0),
         EvTopUp ''0xabc'' 202 (Some ''NIL'') (Inl (Error ''faucet unavailable'')),
         EvTopUp ''0xabc'' 101 (Some ''NIL'') (Inl (Error ''faucet unavailable'')),
         EvTopUp ''0xabc'' 50 (Some ''NIL'') (Inl (Error ''faucet unavailable''))])"
    by (simp add: ensureAdequateFunding_def attempts_def closedFaucet_def testnet_def
          run_defs bigint_div_def)
  have polled: "events_of (codePolling silentLedger 1 ''0xc1'' 1 0) =
      concat (map (\<lambda>ms. [EvGetCode 1 ''0xc1'' (Inr (CodeString ''0x'')), EvSleep ms]) backoffSchedule)
      @ [EvGetCode 1 ''0xc1'' (Inr (CodeString ''0x''))]"
    unfolding events_of_def silent_polling by simp
  show ?thesis
    unfolding run fund polled
    by (simp add: result_of_def events_of_def backoffSchedule_values)
qed

subsection \<open>FeeEstimator\<close>

lemma feeCreditFor_values:
  "feeCreditFor contractType gasPrice =
     (if contractType = ''TOKEN'' \<or> contractType = ''NFT'' then 2 * gasPrice else 12 * gasPrice)"
  by (simp add: feeCreditFor_def contractComplexityMultiplier_def bigint_div_def)

text \<open>
  Claim C4. The fee credit should be 1.2, 2 and 2.5 times the gas price for the simple,
  token and NFT classes. The code computes the multipliers in \<open>bigint\<close> arithmetic:
  \<open>5n * 10n / 20n\<close> is 2 and \<open>12n * 10n / 10n\<close> is 12. At gas price 10 the NFT class gets
  20 instead of 25 and a simple class gets 120 instead of 12; only the token class gets
  the documented 20.
\<close>

theorem feeCredit_at_gas_price_ten:
  "feeCreditFor ''NFT'' 10 = 20 \<and> feeCreditFor ''COUNTER'' 10 = 120 \<and> feeCreditFor ''TOKEN'' 10 = 20"
  by (simp add: feeCreditFor_def contractComplexityMultiplier_def bigint_div_def)

subsection \<open>AddressDeriver\<close>

lemma byte_to_hex_zero: "byte_to_hex 0 = ''00''"
  by (simp add: byte_to_hex_def hex_digit_def)

lemma concat_replicate_twenty:
  "concat (replicate 20 xs) = xs @ xs @ xs @ xs @ xs @ xs @ xs @ xs @ xs @ xs @ xs @ xs @ xs @ xs @ xs @ xs @ xs @ xs @ xs @ xs"
  by (simp add: numeral_eq_Suc)

lemma bytesToHex_zero_address:
  "bytesToHex (replicate 20 0) = ''0x0000000000000000000000000000000000000000''"
  by (simp add: bytesToHex_def map_replicate byte_to_hex_zero concat_replicate_twenty)

lemma hex_digit_value_z: "hex_digit_value CHR ''z'' = None"
  by (simp add: hex_digit_value_def)

text \<open>
  Claim C9, as amended. Whenever \<open>calculateContractAddress\<close> returns, it returns the hex
  encoding of 20 zero bytes, whatever the shard, salt, ABI and chain id are; the bytecode
  only decides whether it returns at all: when the decoder rejects the bytecode, the call
  throws a \<open>ContractDeploymentError\<close>. Its result can therefore equal the address of a
  deployment only when that address is the zero address.
\<close>

theorem calculateContractAddress_result:
  "calculateContractAddress decode shardId salt bytecode abi chainId =
     (case decode bytecode of
        Inl e \<Rightarrow>
          Inl (ContractDeploymentError ''unknown''
                 (''Failed to calculate contract address: '' @ error_message e))
      | Inr data \<Rightarrow> Inr ''0x0000000000000000000000000000000000000000'')"
  by (simp add: calculateContractAddress_def bytesToHex_zero_address split: sum.splits)

text \<open>
  The claim as stated fails on a bytecode that is not hexadecimal: with a strict decoder
  the call throws instead of returning the zero address.
\<close>

theorem calculateContractAddress_throws:
  "calculateContractAddress strictHexToBytes 1 0 ''0xzz'' [] 1 =
     Inl (ContractDeploymentError ''unknown''
            ''Failed to calculate contract address: invalid hex string'')"
  by (simp add: calculateContractAddress_def strictHexToBytes_def hex_digit_value_z)

subsection \<open>Client registry\<close>

lemma getClient_keeps: "clients p k = Some cl \<Longrightarrow> clients (snd (getClient shardId p)) k = Some cl"
  by (auto simp add: getClient_def Let_def)

lemma registryEffect_keeps: "clients p k = Some cl \<Longrightarrow> clients (registryEffect call p) k = Some cl"
  by (cases call) (simp_all add: getClient_keeps)

lemma afterCalls_keeps: "clients p k = Some cl \<Longrightarrow> clients (afterCalls calls p) k = Some cl"
  by (induction calls arbitrary: p) (simp_all add: registryEffect_keeps)

lemma getClient_returns: "\<exists>cl. fst (getClient shardId p) = Some cl \<and> clients (snd (getClient shardId p)) shardId = Some cl"
  by (auto simp add: getClient_def Let_def)

lemma getClient_known: "clients p shardId = Some cl \<Longrightarrow> getClient shardId p = (Some cl, p)"
  by (simp add: getClient_def Let_def)

text \<open>
  Claim C10. \<open>getClient\<close> always returns a client. After a call for a shard, any later
  call for that shard, after any calls of the provider's actions, returns the client the
  first call returned (the same object: same identity) and leaves the registry as it is.
  An entry of the registry is never replaced or removed by a provider action.
\<close>

theorem getClient_same_instance:
  "fst (getClient shardId p) \<noteq> None
   \<and> getClient shardId (afterCalls calls (snd (getClient shardId p))) =
       (fst (getClient shardId p), afterCalls calls (snd (getClient shardId p)))
   \<and> (clients p k = Some cl \<longrightarrow> clients (afterCalls calls p) k = Some cl)"
proof -
  obtain cl0 where first: "fst (getClient shardId p) = Some cl0"
    and stored: "clients (snd (getClient shardId p)) shardId = Some cl0"
    using getClient_returns [of shardId p] by blast
  have later: "clients (afterCalls calls (snd (getClient shardId p))) shardId = Some cl0"
    using stored by (rule afterCalls_keeps)
  show ?thesis
    using first getClient_known [OF later] afterCalls_keeps [of p k cl calls] by simp
qed

theorem getClient_same_instance_witness:
  "fst (getClient 2 freshProvider) =
     Some \<lparr>pc_identity = 0, pc_endpoint = ''https://rpc'', pc_shardId = 2\<rparr>
   \<and> fst (getClient 2 (afterCalls [CallVerifyContract 1, CallDeployContract True 2, CallContractMethod 3]
        (snd (getClient 2 freshProvider)))) =
     Some \<lparr>pc_identity = 0, pc_endpoint = ''https://rpc'', pc_shardId = 2\<rparr>
   \<and> clients (snd (getClient 2 freshProvider)) 2 =
        Some \<lparr>pc_identity = 0, pc_endpoint = ''https://rpc'', pc_shardId = 2\<rparr>
   \<and> clients (afterCalls [CallVerifyContract 1, CallDeployContract True 2, CallContractMethod 3]
        (snd (getClient 2 freshProvider))) 2 =
        Some \<lparr>pc_identity = 0, pc_endpoint = ''https://rpc'', pc_shardId = 2\<rparr>
   \<and> constructed (afterCalls [CallVerifyContract 1, CallDeployContract True 2, CallContractMethod 3]
        (snd (getClient 2 freshProvider))) = 3"
  using getClient_same_instance [of 2 freshProvider
      "[CallVerifyContract 1, CallDeployContract True 2, CallContractMethod 3]" 2
      "\<lparr>pc_identity = 0, pc_endpoint = ''https://rpc'', pc_shardId = 2\<rparr>"]
    getClient_same_instance [of 2 "snd (getClient 2 freshProvider)"
      "[CallVerifyContract 1, CallDeployContract True 2, CallContractMethod 3]" 2
      "\<lparr>pc_identity = 0, pc_endpoint = ''https://rpc'', pc_shardId = 2\<rparr>"]
  by (simp add: getClient_def freshProvider_def Let_def)

subsection \<open>Salt\<close>

lemma round_shift_bounds:
  assumes "0 \<le> p" and "1 \<le> s"
  shows "0 \<le> round_shift p s" and "round_shift p s * 2 ^ s \<le> p + 2 ^ (s - 1)"
proof -
  define q where "q = p div 2 ^ s"
  define r where "r = p mod 2 ^ s"
  have split: "p = q * 2 ^ s + r"
    by (simp only: q_def r_def div_mult_mod_eq)
  have r: "0 \<le> r" "r < 2 ^ s"
    by (simp_all add: r_def)
  have q: "0 \<le> q"
    using assms(1) by (simp add: q_def pos_imp_zdiv_nonneg_iff)
  have pow: "(2::int) ^ s = 2 * 2 ^ (s - 1)"
    using assms(2) by (cases s) simp_all
  have cases: "round_shift p s = q \<or> (round_shift p s = q + 1 \<and> 2 ^ s \<le> 2 * r)"
    by (auto simp add: round_shift_def Let_def q_def [symmetric] r_def [symmetric])
  show "0 \<le> round_shift p s"
    using cases q by auto
  show "round_shift p s * 2 ^ s \<le> p + 2 ^ (s - 1)"
  proof -
    from cases show ?thesis
    proof
      assume "round_shift p s = q"
      then show ?thesis using split r by simp
    next
      assume up: "round_shift p s = q + 1 \<and> 2 ^ s \<le> 2 * r"
      then have "2 ^ (s - 1) \<le> r" using pow by simp
      moreover have "(q + 1) * 2 ^ s = p - r + 2 ^ s"
        using split by (simp add: algebra_simps)
      ultimately show ?thesis using up pow by simp
    qed
  qed
qed

lemma div_below:
  fixes p d k :: int
  assumes "0 < d" and "p < k * d"
  shows "p div d < k"
proof -
  have "d * (p div d) + p mod d = p" "0 \<le> p mod d"
    using assms(1) by simp_all
  then have "d * (p div d) \<le> p"
    by linarith
  then have "d * (p div d) < d * k"
    using assms(2) by (simp add: mult.commute)
  then show ?thesis
    using assms(1) by (simp add: mult_less_cancel_left_pos)
qed

lemma salt_core:
  fixes m :: int and E :: nat
  assumes m: "0 < m" "m < 2 ^ 53" and below: "m < 2 ^ E"
  shows "0 \<le> math_floor (to_double (m * 10000) (- int E))
     \<and> math_floor (to_double (m * 10000) (- int E)) \<le> 9999"
proof -
  define P where "P = m * 10000"
  have P: "0 < P" "P \<le> 10000 * 2 ^ E - 10000"
    using m below by (simp_all add: P_def)
  have Epos: "0 < E"
    using m below by (cases E) simp_all
  show ?thesis
  proof (cases "bitlen \<bar>P\<bar> \<le> 53")
    case True
    then have eq: "to_double P (- int E) = Double P (- int E)"
      by (simp add: to_double_def)
    have fl: "math_floor (Double P (- int E)) = P div 2 ^ E"
      using Epos by (simp add: math_floor_def)
    have "P < 10000 * 2 ^ E" using P by simp
    then have "P div 2 ^ E < 10000"
      by (intro div_below) simp_all
    moreover have "0 \<le> P div 2 ^ E"
      using P by (simp add: pos_imp_zdiv_nonneg_iff)
    ultimately show ?thesis
      by (simp add: P_def [symmetric] eq fl)
  next
    case False
    define s where "s = nat (bitlen \<bar>P\<bar> - 53)"
    have s1: "1 \<le> s" using False by (simp add: s_def)
    have si: "bitlen \<bar>P\<bar> - 53 = int s" using False by (simp add: s_def)
    have "P < 2 ^ 67"
      using m by (simp add: P_def)
    then have "bitlen P \<le> 67"
      by (simp add: bitlen_le_iff_power)
    then have s14: "s \<le> 14"
      using P by (simp add: s_def)
    define R where "R = round_shift P s"
    have eq: "to_double P (- int E) = Double R (int s - int E)"
      using False by (simp add: to_double_def R_def si)
    have R0: "0 \<le> R" and Rs: "R * 2 ^ s \<le> P + 2 ^ (s - 1)"
      using round_shift_bounds [of P s] P s1 by (simp_all add: R_def)
    have "(2::int) ^ (s - 1) \<le> 2 ^ 13"
      using s14 by (intro power_increasing) simp_all
    then have Rlt: "R * 2 ^ s < 10000 * 2 ^ E"
      using Rs P by simp
    show ?thesis
    proof (cases "E \<le> s")
      case True
      then have fl: "math_floor (Double R (int s - int E)) = R * 2 ^ (s - E)"
        by (simp add: math_floor_def nat_diff_distrib')
      have "(2::int) ^ s = 2 ^ (s - E) * 2 ^ E"
        using True by (simp add: power_add [symmetric])
      then have "(R * 2 ^ (s - E)) * 2 ^ E < 10000 * 2 ^ E"
        using Rlt by (simp add: mult.assoc)
      then have "R * 2 ^ (s - E) < 10000"
        by simp
      then show ?thesis
        using R0 by (simp add: P_def [symmetric] eq fl)
    next
      case False
      then have fl: "math_floor (Double R (int s - int E)) = R div 2 ^ (E - s)"
        by (simp add: math_floor_def nat_diff_distrib')
      have "(2::int) ^ E = 2 ^ (E - s) * 2 ^ s"
        using False by (simp add: power_add [symmetric])
      then have "R * 2 ^ s < (10000 * 2 ^ (E - s)) * 2 ^ s"
        using Rlt by (simp add: mult.assoc)
      then have "R < 10000 * 2 ^ (E - s)"
        by simp
      then have "R div 2 ^ (E - s) < 10000"
        by (intro div_below) simp_all
      moreover have "0 \<le> R div 2 ^ (E - s)"
        using R0 by (simp add: pos_imp_zdiv_nonneg_iff)
      ultimately show ?thesis
        by (simp add: P_def [symmetric] eq fl)
    qed
  qed
qed

lemma random_salt_range:
  assumes "in_unit_interval r"
  shows "0 \<le> math_floor (js_multiply r (Double 10000 0))
     \<and> math_floor (js_multiply r (Double 10000 0)) \<le> 9999"
proof (cases "mant r = 0")
  case True
  then show ?thesis
    by (simp add: js_multiply_def to_double_def math_floor_def)
next
  case False
  with assms have m: "0 < mant r" "mant r < 2 ^ 53" and e: "expo r < 0"
    and below: "mant r < 2 ^ nat (- expo r)"
    by (simp_all add: in_unit_interval_def)
  have "expo r = - int (nat (- expo r))" using e by simp
  then show ?thesis
    using salt_core [OF m below] by (simp add: js_multiply_def)
qed

lemma hex_digits_table:
  "list_all (\<lambda>k. hex_digit_value (''0123456789abcdef'' ! k) = Some k) [0..<16]"
  by (simp add: hex_digit_value_def upt_rec)

lemma hex_digit_value_hex_digit: "hex_digit_value (hex_digit n) = Some (n mod 16)"
proof -
  have "n mod 16 \<in> set [0..<16]" by simp
  then show ?thesis
    using hex_digits_table unfolding hex_digit_def list_all_iff by blast
qed

lemma hex_digits_value_byte:
  "hex_digits_value acc (byte_to_hex b @ rest) = hex_digits_value (acc * 256 + uint b) rest"
proof -
  define n where "n = unat b"
  have "n < 2 ^ 8"
    unfolding n_def using unsigned_less [of b, where ?'a = nat] by simp
  then have n: "n < 256" by simp
  then have "n div 16 < 16"
    by (simp add: less_mult_imp_div_less)
  then have hi: "n div 16 mod 16 = n div 16"
    by simp
  have lo: "n mod 16 mod 16 = n mod 16"
    by simp
  have "int (n div 16 * 16 + n mod 16) = int n"
    by (simp only: div_mult_mod_eq)
  then have "int (n div 16) * 16 + int (n mod 16) = int n"
    by (simp only: of_nat_add of_nat_mult of_nat_numeral)
  moreover have "\<And>x y k::int. x * 16 + y = k \<Longrightarrow> (acc * 16 + x) * 16 + y = acc * 256 + k"
    by (simp add: algebra_simps)
  ultimately have total: "(acc * 16 + int (n div 16)) * 16 + int (n mod 16) = acc * 256 + int n"
    by blast
  have u: "uint b = int n"
    by (simp add: n_def)
  show ?thesis
    unfolding byte_to_hex_def n_def [symmetric] u
    by (simp only: append_Cons append_Nil hex_digits_value.simps hex_digit_value_hex_digit
          option.case hi lo total)
qed

lemma hex_digits_value_bytes:
  "hex_digits_value acc (concat (map byte_to_hex bs)) = Some (bigEndian acc bs)"
  by (induction bs arbitrary: acc) (simp_all add: hex_digits_value_byte)

lemma bigEndian_bounds:
  "0 \<le> acc \<Longrightarrow> 0 \<le> bigEndian acc bs \<and> bigEndian acc bs < (acc + 1) * 256 ^ length bs"
proof (induction bs arbitrary: acc)
  case Nil
  then show ?case by simp
next
  case (Cons b bs)
  have b: "0 \<le> uint b" "uint b < 256"
    using uint_lt2p [of b] by simp_all
  then have "0 \<le> acc * 256 + uint b" using Cons.prems by simp
  from Cons.IH [OF this]
  have ih: "0 \<le> bigEndian (acc * 256 + uint b) bs"
    "bigEndian (acc * 256 + uint b) bs < (acc * 256 + uint b + 1) * 256 ^ length bs"
    by simp_all
  have "(acc * 256 + uint b + 1) * 256 ^ length bs \<le> ((acc + 1) * 256) * 256 ^ length bs"
    using b by (intro mult_right_mono) simp_all
  then have "bigEndian (acc * 256 + uint b) bs < ((acc + 1) * 256) * 256 ^ length bs"
    using ih(2) by (rule less_le_trans [rotated])
  then show ?case using ih(1) by (simp add: algebra_simps)
qed

lemma crypto_salt_value:
  assumes "bs \<noteq> []"
  shows "BigInt_of_hex_literal (''0x'' @ buffer_toString_hex bs) = Inr (bigEndian 0 bs)"
proof -
  obtain b rest where bs: "bs = b # rest" using assms by (cases bs) auto
  have "buffer_toString_hex bs \<noteq> []"
    by (simp add: bs buffer_toString_hex_def byte_to_hex_def)
  then show ?thesis
    using hex_digits_value_bytes [of 0 bs]
    by (simp add: BigInt_of_hex_literal_def buffer_toString_hex_def)
qed

lemma crypto_salt_range:
  assumes "length buf = 8"
  shows "\<exists>salt. BigInt_of_hex_literal (''0x'' @ buffer_toString_hex buf) = Inr salt
           \<and> 0 \<le> salt \<and> salt < 2 ^ 64"
proof -
  have ne: "buf \<noteq> []" using assms by auto
  have "0 \<le> bigEndian 0 buf \<and> bigEndian 0 buf < (0 + 1) * 256 ^ length buf"
    by (rule bigEndian_bounds) simp
  then have "0 \<le> bigEndian 0 buf \<and> bigEndian 0 buf < 2 ^ 64"
    by (simp add: assms)
  then show ?thesis
    using crypto_salt_value [OF ne] by simp
qed

lemma generateRandomSalt_crypto_run:
  "generateRandomSalt_crypto c w =
     (BigInt_of_hex_literal (''0x'' @ buffer_toString_hex (fst (randomBytes c 8 w))),
      snd (randomBytes c 8 w), [EvRandomBytes 8 (fst (randomBytes c 8 w))])"
  by (simp add: generateRandomSalt_crypto_def andThen_def perform_def yield_def split: prod.splits)

lemma testnet_random_salt:
  "generateRandomSalt testnet 0 = (5000, 0, [EvMathRandom (Double 1 (- 1))])"
  by (simp add: generateRandomSalt_def testnet_def andThen_def perform_def yield_def
        js_multiply_def to_double_def math_floor_def bitlen_le_iff_power)

text \<open>
  Claim C8, as amended. The salt of \<open>generateRandomSalt\<close> (nil-contract provider,
  supply-chain provider, and the same expression in the deploy script) is an integer from
  0 to 9999 whenever \<open>Math.random\<close> returns a double in the unit interval, the rounding of
  the multiplication included. The salt of the earlier provider is the big-endian value of
  8 random bytes, an integer from 0 to \<open>2 ^ 64 - 1\<close>.
\<close>

theorem generated_salt_ranges:
  "(in_unit_interval (fst (mathRandom c w)) \<longrightarrow>
      0 \<le> result_of (generateRandomSalt c w) \<and> result_of (generateRandomSalt c w) \<le> 9999)
   \<and> (length (fst (randomBytes c2 8 v)) = 8 \<longrightarrow>
      (\<exists>salt. result_of (generateRandomSalt_crypto c2 v) = Inr salt \<and> 0 \<le> salt \<and> salt < 2 ^ 64))"
proof (intro conjI impI)
  assume unit: "in_unit_interval (fst (mathRandom c w))"
  have run: "result_of (generateRandomSalt c w) =
      math_floor (js_multiply (fst (mathRandom c w)) (Double 10000 0))"
    by (simp add: generateRandomSalt_def result_of_def andThen_def perform_def yield_def
          split: prod.splits)
  show "0 \<le> result_of (generateRandomSalt c w)"
    using random_salt_range [OF unit] by (simp add: run)
  show "result_of (generateRandomSalt c w) \<le> 9999"
    using random_salt_range [OF unit] by (simp add: run)
next
  assume len: "length (fst (randomBytes c2 8 v)) = 8"
  show "\<exists>salt. result_of (generateRandomSalt_crypto c2 v) = Inr salt \<and> 0 \<le> salt \<and> salt < 2 ^ 64"
    using crypto_salt_range [OF len]
    by (simp add: generateRandomSalt_crypto_run result_of_def)
qed

theorem generated_salt_ranges_witness:
  "in_unit_interval (fst (mathRandom testnet 0))
   \<and> result_of (generateRandomSalt testnet 0) = 5000
   \<and> length (fst (randomBytes testnet 8 0)) = 8
   \<and> (\<exists>salt. result_of (generateRandomSalt_crypto testnet 0) = Inr salt \<and> 0 \<le> salt \<and> salt < 2 ^ 64)"
  using generated_salt_ranges [of testnet 0 testnet 0] testnet_random_salt
  by (simp add: result_of_def) (simp add: testnet_def in_unit_interval_def)

text \<open>
  The claim as stated fails on the earlier provider: when the 8 random bytes are all 255,
  its salt is \<open>2 ^ 64 - 1\<close>.
\<close>

theorem crypto_salt_exceeds_range:
  "generateRandomSalt_crypto testnet 0 =
     (Inr 18446744073709551615, 0, [EvRandomBytes 8 [255, 255, 255, 255, 255, 255, 255, 255]])
   \<and> (9999 :: int) < 18446744073709551615"
proof -
  have bytes: "randomBytes testnet 8 0 = ([255, 255, 255, 255, 255, 255, 255, 255], 0)"
    by (simp add: testnet_def numeral_eq_Suc)
  have "BigInt_of_hex_literal (''0x'' @ buffer_toString_hex [255, 255, 255, 255, 255, 255, 255, 255])
          = Inr (bigEndian 0 [255, 255, 255, 255, 255, 255, 255, 255])"
    by (rule crypto_salt_value) simp
  then show ?thesis
    unfolding generateRandomSalt_crypto_run bytes by simp
qed

subsection \<open>DependentDeploymentSequencer\<close>














lemma generateRandomSalt_run:
  "generateRandomSalt c w =
     (math_floor (js_multiply (fst (mathRandom c w)) (Double 10000 0)), snd (mathRandom c w),
      [EvMathRandom (fst (mathRandom c w))])"
  by (simp add: generateRandomSalt_def run_defs split: prod.splits)


















subsection \<open>DeploymentStrategySelector\<close>

lemma externalAttempts_simps:
  "externalAttempts [] = 0"
  "externalAttempts (xs @ ys) = externalAttempts xs + externalAttempts ys"
  "externalAttempts (EvExternalDeploymentTransaction q1 n1 x1 # evs) = Suc (externalAttempts evs)"
  "externalAttempts (EvGetBalance c2 a2 x2 # evs) = externalAttempts evs"
  "externalAttempts (EvTopUp a3 n3 t3 x3 # evs) = externalAttempts evs"
  "externalAttempts (EvGetCode c4 a4 x4 # evs) = externalAttempts evs"
  "externalAttempts (EvGetGasPrice c5 s5 x5 # evs) = externalAttempts evs"
  "externalAttempts (EvChainId c6 x6 # evs) = externalAttempts evs"
  "externalAttempts (EvWaitTillCompleted c7 h7 x7 # evs) = externalAttempts evs"
  "externalAttempts (EvGetReceipt c8 h8 x8 # evs) = externalAttempts evs"
  "externalAttempts (EvGenerateSmartAccount s9 x9 # evs) = externalAttempts evs"
  "externalAttempts (EvAccountDeploy a10 q10 x10 # evs) = externalAttempts evs"
  "externalAttempts (EvSend c11 t11 x11 # evs) = externalAttempts evs"
  "externalAttempts (EvMathRandom x12 # evs) = externalAttempts evs"
  "externalAttempts (EvRandomBytes n13 x13 # evs) = externalAttempts evs"
  "externalAttempts (EvGenerateKeyPair x14 # evs) = externalAttempts evs"
  "externalAttempts (EvSleep ms # evs) = externalAttempts evs"
  "externalAttempts (EvLog m # evs) = externalAttempts evs"
  by (simp_all add: externalAttempts_def)

lemma topUpAttempts_internal:
  "topUpAttempts c client a req amts w = (r, w', evs) \<Longrightarrow> externalAttempts evs = 0"
proof (induction amts arbitrary: w w' evs r)
  case Nil
  then show ?case by (auto simp add: yield_def externalAttempts_simps)
next
  case (Cons amount rest)
  then show ?case
    apply (simp add: run_defs split: prod.splits sum.splits if_splits)
    apply (fastforce simp: externalAttempts_simps)+
    done
qed

lemma ensureAdequateFunding_internal:
  "ensureAdequateFunding c a req client w = (r, w', evs) \<Longrightarrow> externalAttempts evs = 0"
  by (auto simp add: ensureAdequateFunding_def run_defs externalAttempts_simps
        split: prod.splits sum.splits if_splits dest: topUpAttempts_internal)

lemma codePolling_internal:
  "codePolling c client address attempt w = (r, w', evs) \<Longrightarrow> externalAttempts evs = 0"
proof (induction c client address attempt arbitrary: w r w' evs rule: codePolling.induct)
  case (1 c client address attempt)
  show ?case
  proof (cases "attempt \<le> 30")
    case False
    with "1.prems" show ?thesis
      by (simp add: codePolling.simps [of c client address attempt] yield_def externalAttempts_simps)
  next
    case le: True
    obtain res w1 where call: "getCode c client address w = (res, w1)"
      by (cases "getCode c client address w")
    obtain r2 w2 evs2 where rest: "codePolling c client address (attempt + 1) w1 = (r2, w2, evs2)"
      by (cases "codePolling c client address (attempt + 1) w1")
    show ?thesis
    proof (cases res)
      case (Inl e)
      with "1.prems" le call show ?thesis
        by (auto simp add: codePolling.simps [of c client address attempt] run_defs
              externalAttempts_simps)
    next
      case (Inr code)
      show ?thesis
      proof (cases "isEmptyCode code")
        case False
        with "1.prems" le call Inr show ?thesis
          by (auto simp add: codePolling.simps [of c client address attempt] run_defs
                externalAttempts_simps)
      next
        case empty: True
        then have nn: "\<not> \<not> isEmptyCode code" by simp
        show ?thesis
        proof (cases "attempt < 30")
          case True
          have "externalAttempts evs2 = 0"
            using "1.IH"(1) [OF le nn True rest] .
          with "1.prems" le call Inr empty True rest show ?thesis
            by (auto simp add: codePolling.simps [of c client address attempt] run_defs
                  externalAttempts_simps)
        next
          case False
          have "externalAttempts evs2 = 0"
            using "1.IH"(2) [OF le nn False rest] .
          with "1.prems" le call Inr empty False rest show ?thesis
            by (auto simp add: codePolling.simps [of c client address attempt] run_defs
                  externalAttempts_simps)
        qed
      qed
    qed
  qed
qed

lemma waitForContractDeployment_internal:
  "waitForContractDeployment c client address hash w = (r, w', evs) \<Longrightarrow> externalAttempts evs = 0"
  by (auto simp add: waitForContractDeployment_def run_defs externalAttempts_simps
        split: prod.splits sum.splits option.splits if_splits dest: codePolling_internal)

lemma deployContractInternal_internal:
  "deployContractInternal c client params w = (r, w', evs) \<Longrightarrow> externalAttempts evs = 0"
  by (auto simp add: deployContractInternal_def generateRandomSalt_run run_defs Let_def
        externalAttempts_simps split: prod.splits sum.splits if_splits)

lemma deployContractExternal_once:
  "deployContractExternal c client params chain w = (r, w', evs) \<Longrightarrow> externalAttempts evs = 1"
  by (auto simp add: deployContractExternal_def generateRandomSalt_run run_defs Let_def
        externalAttempts_simps split: prod.splits sum.splits if_splits
        dest: ensureAdequateFunding_internal)

lemma externalStrategy_once:
  assumes "externalStrategy c client params chain w = (r, w', evs)"
  shows "externalAttempts evs = 1"
proof -
  obtain r1 w1 e1 where ext: "deployContractExternal c client params chain w = (r1, w1, e1)"
    by (cases "deployContractExternal c client params chain w")
  note once = deployContractExternal_once [OF ext]
  show ?thesis
  proof (cases r1)
    case (Inl e)
    with assms ext have "evs = e1"
      by (simp add: externalStrategy_def run_defs)
    then show ?thesis using once by simp
  next
    case (Inr d)
    obtain r2 w2 e2 where conf:
      "waitForContractDeployment c client (dep_address d) (dep_hash d) w1 = (r2, w2, e2)"
      by (cases "waitForContractDeployment c client (dep_address d) (dep_hash d) w1")
    from assms ext Inr conf have "evs = e1 @ e2"
      by (auto simp add: externalStrategy_def run_defs split: if_splits)
    then show ?thesis
      using once waitForContractDeployment_internal [OF conf]
      by (simp add: externalAttempts_simps)
  qed
qed

text \<open>The runs of \<open>deployStrategies\<close>, by what the internal deployment did.\<close>

lemma deployStrategies_external:
  "deployStrategies c False client params chain w = externalStrategy c client params chain w"
  by (simp add: deployStrategies_def)

lemma deployStrategies_fallback:
  assumes "deployContractInternal c client params w = (Inl e, w1, evs1)"
    and "externalStrategy c client params chain w1 = (r, w2, evs2)"
  shows "deployStrategies c True client params chain w = (r, w2, evs1 @ EvLog fallbackLog # evs2)"
  using assms by (simp add: deployStrategies_def run_defs)

lemma deployStrategies_confirmation:
  assumes "deployContractInternal c client params w = (Inr d, w1, evs1)"
    and "waitForContractDeployment c client (dep_address d) (dep_hash d) w1 = (ok, w2, evs2)"
  shows "deployStrategies c True client params chain w =
     (Inr (if ok then DeployedInternal (dep_address d) (dep_hash d)
           else InternalVerificationTimedOut (dep_address d) (dep_hash d)), w2, evs1 @ evs2)"
  using assms by (simp add: deployStrategies_def run_defs)

lemma deployStrategies_at_most_once:
  assumes "deployStrategies c useInternal client params chain w = (r, w', evs)"
  shows "externalAttempts evs \<le> 1"
proof (cases useInternal)
  case False
  with assms show ?thesis
    using externalStrategy_once [of c client params chain w r w' evs]
    by (simp add: deployStrategies_external)
next
  case True
  obtain r1 w1 evs1 where int: "deployContractInternal c client params w = (r1, w1, evs1)"
    by (cases "deployContractInternal c client params w")
  note none = deployContractInternal_internal [OF int]
  show ?thesis
  proof (cases r1)
    case (Inl e)
    obtain r2 w2 evs2 where ext: "externalStrategy c client params chain w1 = (r2, w2, evs2)"
      by (cases "externalStrategy c client params chain w1")
    have "evs = evs1 @ EvLog fallbackLog # evs2"
      using assms True deployStrategies_fallback [OF int [unfolded Inl] ext] by simp
    then show ?thesis
      using none externalStrategy_once [OF ext] by (simp add: externalAttempts_simps)
  next
    case (Inr d)
    obtain ok w2 evs2 where conf:
      "waitForContractDeployment c client (dep_address d) (dep_hash d) w1 = (ok, w2, evs2)"
      by (cases "waitForContractDeployment c client (dep_address d) (dep_hash d) w1")
    have "evs = evs1 @ evs2"
      using assms True deployStrategies_confirmation [OF int [unfolded Inr] conf] by simp
    then show ?thesis
      using none waitForContractDeployment_internal [OF conf] by (simp add: externalAttempts_simps)
  qed
qed

lemma deployOnShard_at_most_once:
  assumes "deployOnShard c details args w = (r, w', evs)"
  shows "externalAttempts evs \<le> 1"
proof -
  obtain r1 w1 where s1: "getGasPrice c (da_shardId args) (da_shardId args) w = (r1, w1)"
    by (cases "getGasPrice c (da_shardId args) (da_shardId args) w")
  obtain r2 w2 where s2: "clientChainId c (da_shardId args) w1 = (r2, w2)"
    by (cases "clientChainId c (da_shardId args) w1")
  show ?thesis
    using assms s1 s2
    by (auto simp add: deployOnShard_def run_defs Let_def externalAttempts_simps
          split: sum.splits prod.splits dest: deployStrategies_at_most_once)
qed

lemma deployContract_try_at_most_once:
  assumes "deployContract_try c contractTypes args w = (r, w', evs)"
  shows "externalAttempts evs \<le> 1"
proof -
  obtain r1 w1 where s1: "getGasPrice c (da_shardId args) (da_shardId args) w = (r1, w1)"
    by (cases "getGasPrice c (da_shardId args) (da_shardId args) w")
  show ?thesis
    using assms s1
    by (auto simp add: deployContract_try_def run_defs Let_def externalAttempts_simps
          split: sum.splits prod.splits option.splits if_splits
          dest: deployOnShard_at_most_once)
qed

lemma deployContract_at_most_once:
  assumes "deployContract c contractTypes args w = (r, w', evs)"
  shows "externalAttempts evs \<le> 1"
  using assms
  by (auto simp add: deployContract_def run_defs externalAttempts_simps
        split: sum.splits prod.splits dest: deployContract_try_at_most_once)

lemma tryTopUp_internal:
  "tryTopUp c a amount n w = (r, w', evs) \<Longrightarrow> externalAttempts evs = 0"
  unfolding tryTopUp_def
proof (induction n arbitrary: amount w w' evs r)
  case 0
  then show ?case by (auto simp add: yield_def externalAttempts_simps)
next
  case (Suc n)
  then show ?case
    apply (simp add: run_defs split: prod.splits sum.splits if_splits)
    apply (fastforce simp: externalAttempts_simps)+
    done
qed

lemma internalAttempt_earlier_internal:
  "internalAttempt_earlier c client request w = (r, w', evs) \<Longrightarrow> externalAttempts evs = 0"
  by (auto simp add: internalAttempt_earlier_def run_defs externalAttempts_simps
        split: prod.splits sum.splits if_splits dest: tryTopUp_internal)

lemma externalDeployment_earlier_once:
  "externalDeployment_earlier c client request chain w = (r, w', evs) \<Longrightarrow> externalAttempts evs = 1"
  by (auto simp add: externalDeployment_earlier_def run_defs Let_def externalAttempts_simps
        split: prod.splits sum.splits if_splits dest: tryTopUp_internal)

lemma deployStrategies_earlier_fallback:
  assumes "internalAttempt_earlier c client request w = (Inl e, w1, evs1)"
    and "externalDeployment_earlier c client request chain w1 = (r, w2, evs2)"
  shows "deployStrategies_earlier c True client request chain w =
           (r, w2, evs1 @ EvLog fallbackLog # evs2)"
  using assms by (simp add: deployStrategies_earlier_def run_defs)

lemma deployStrategies_earlier_at_most_once:
  assumes "deployStrategies_earlier c useInternal client request chain w = (r, w', evs)"
  shows "externalAttempts evs \<le> 1"
proof (cases useInternal)
  case False
  with assms show ?thesis
    using externalDeployment_earlier_once [of c client request chain w r w' evs]
    by (simp add: deployStrategies_earlier_def)
next
  case True
  obtain r1 w1 evs1 where int: "internalAttempt_earlier c client request w = (r1, w1, evs1)"
    by (cases "internalAttempt_earlier c client request w")
  note none = internalAttempt_earlier_internal [OF int]
  show ?thesis
  proof (cases r1)
    case (Inl e)
    obtain r2 w2 evs2 where ext: "externalDeployment_earlier c client request chain w1 = (r2, w2, evs2)"
      by (cases "externalDeployment_earlier c client request chain w1")
    have "evs = evs1 @ EvLog fallbackLog # evs2"
      using assms True deployStrategies_earlier_fallback [OF int [unfolded Inl] ext] by simp
    then show ?thesis
      using none externalDeployment_earlier_once [OF ext] by (simp add: externalAttempts_simps)
  next
    case (Inr message)
    with assms True int have "evs = evs1"
      by (simp add: deployStrategies_earlier_def run_defs)
    then show ?thesis using none by simp
  qed
qed

lemma deployContract_earlier_at_most_once:
  assumes "deployContract_earlier c contractTypes args w = (r, w', evs)"
  shows "externalAttempts evs \<le> 1"
proof -
  obtain r1 w1 where s1: "getGasPrice c (da_shardId args) (da_shardId args) w = (r1, w1)"
    by (cases "getGasPrice c (da_shardId args) (da_shardId args) w")
  obtain r2 w2 where s2: "clientChainId c (da_shardId args) w1 = (r2, w2)"
    by (cases "clientChainId c (da_shardId args) w1")
  show ?thesis
    using assms s1 s2
    by (auto simp add: deployContract_earlier_def generateRandomSalt_crypto_run run_defs Let_def
          externalAttempts_simps
          split: sum.splits prod.splits option.splits
          dest: deployStrategies_earlier_at_most_once)
qed

text \<open>
  What the events of each part can be, and what the result of each part says about them.
\<close>

lemma no_attempts_iff: "externalAttempts evs = 0 \<longleftrightarrow> (\<forall>ev\<in>set evs. \<not> isExternalAttempt ev)"
  by (simp add: externalAttempts_def filter_empty_conv)

lemma confirmationEvent_other:
  "confirmationEvent ev \<Longrightarrow> \<not> internalCallThrew ev \<and> ev \<noteq> EvLog m \<and> \<not> isExternalAttempt ev"
  by (cases ev) auto

lemma codePolling_events:
  "codePolling c client address attempt w = (r, w', evs) \<Longrightarrow> list_all confirmationEvent evs"
proof (induction c client address attempt arbitrary: w r w' evs rule: codePolling.induct)
  case (1 c client address attempt)
  show ?case
  proof (cases "attempt \<le> 30")
    case False
    with "1.prems" show ?thesis
      by (simp add: codePolling.simps [of c client address attempt] yield_def)
  next
    case le: True
    obtain res w1 where call: "getCode c client address w = (res, w1)"
      by (cases "getCode c client address w")
    obtain r2 w2 evs2 where rest: "codePolling c client address (attempt + 1) w1 = (r2, w2, evs2)"
      by (cases "codePolling c client address (attempt + 1) w1")
    show ?thesis
    proof (cases res)
      case (Inl e)
      with "1.prems" le call show ?thesis
        by (auto simp add: codePolling.simps [of c client address attempt] run_defs)
    next
      case (Inr code)
      show ?thesis
      proof (cases "isEmptyCode code")
        case False
        with "1.prems" le call Inr show ?thesis
          by (auto simp add: codePolling.simps [of c client address attempt] run_defs)
      next
        case empty: True
        then have nn: "\<not> \<not> isEmptyCode code" by simp
        show ?thesis
        proof (cases "attempt < 30")
          case True
          note ih = "1.IH"(1) [OF le nn True rest]
          with "1.prems" le call Inr empty True rest show ?thesis
            by (auto simp add: codePolling.simps [of c client address attempt] run_defs)
        next
          case False
          note ih = "1.IH"(2) [OF le nn False rest]
          with "1.prems" le call Inr empty False rest show ?thesis
            by (auto simp add: codePolling.simps [of c client address attempt] run_defs)
        qed
      qed
    qed
  qed
qed

lemma waitForContractDeployment_events:
  assumes "waitForContractDeployment c client address hash w = (ok, w', evs)"
  shows "list_all confirmationEvent evs"
  using assms
  by (auto simp add: waitForContractDeployment_def run_defs
        split: prod.splits sum.splits option.splits if_splits dest: codePolling_events)

lemma waitForContractDeployment_result:
  assumes "waitForContractDeployment c client address hash w = (ok, w', evs)"
  shows "ok \<longleftrightarrow> list_ex sawCode evs"
proof -
  have "\<And>w1 evs1 r1. codePolling c client address 1 w1 = (r1, w', evs1) \<Longrightarrow> r1 \<longleftrightarrow> list_ex sawCode evs1"
    using codePolling_bounds by (fastforce simp add: list_ex_iff filter_empty_conv)
  with assms show ?thesis
    by (auto simp add: waitForContractDeployment_def run_defs
          split: prod.splits sum.splits option.splits if_splits)
qed

lemma waitForContractDeployment_trace:
  assumes "waitForContractDeployment c client address hash w = (ok, w', evs)"
  shows "\<not> list_ex internalCallThrew evs" and "EvLog m \<notin> set evs"
  using waitForContractDeployment_events [OF assms] confirmationEvent_other
  by (auto simp add: list_ex_iff list_all_iff)

lemma deployment_eta: "\<lparr>dep_hash = dep_hash d, dep_address = dep_address d\<rparr> = (d::deployment)"
  by simp

lemma deployContractInternal_trace:
  assumes "deployContractInternal c client params w = (r, w', evs)"
  shows "list_ex internalCallThrew evs \<longleftrightarrow> (\<exists>e. r = Inl e)"
    and "\<not> list_ex sawCode evs"
    and "EvLog m \<notin> set evs"
    and "\<And>d. r = Inr d \<Longrightarrow> \<exists>account request. EvAccountDeploy account request (Inr d) \<in> set evs"
  using assms
  by (auto simp add: deployContractInternal_def generateRandomSalt_run run_defs Let_def
        deployment_eta split: prod.splits sum.splits if_splits)

lemma externalStrategy_head:
  assumes "externalStrategy c client params chain w = (r, w', evs)"
  shows "\<exists>x q res rest. evs = EvMathRandom x # EvExternalDeploymentTransaction q chain res # rest"
  using assms
  by (auto simp add: externalStrategy_def deployContractExternal_def generateRandomSalt_run run_defs Let_def
        split: prod.splits sum.splits if_splits)


lemma takeWhile_all: "\<forall>x\<in>set xs. P x \<Longrightarrow> takeWhile P (xs @ ys) = xs @ takeWhile P ys"
  by (simp add: takeWhile_append2)

lemma deployStrategies_internal_requested:
  assumes "deployStrategies c True client params chain w = (r, w', evs)"
  shows "if list_ex internalCallThrew (takeWhile (\<lambda>ev. \<not> isExternalAttempt ev) evs)
         then EvLog fallbackLog \<in> set evs \<and> externalAttempts evs = 1
              \<and> externalAttempts (beforeFallback evs) = 0
         else externalAttempts evs = 0 \<and>
              (\<exists>account request d. EvAccountDeploy account request (Inr d) \<in> set evs \<and>
                 r = Inr (if list_ex sawCode evs then DeployedInternal (dep_address d) (dep_hash d)
                          else InternalVerificationTimedOut (dep_address d) (dep_hash d)))"
proof -
  obtain r1 w1 evs1 where int: "deployContractInternal c client params w = (r1, w1, evs1)"
    by (cases "deployContractInternal c client params w")
  note none = deployContractInternal_internal [OF int]
  then have quiet: "\<forall>ev\<in>set evs1. \<not> isExternalAttempt ev"
    by (simp add: no_attempts_iff)
  note tr = deployContractInternal_trace [OF int]
  show ?thesis
  proof (cases r1)
    case (Inl e)
    obtain r2 w2 evs2 where ext: "externalStrategy c client params chain w1 = (r2, w2, evs2)"
      by (cases "externalStrategy c client params chain w1")
    obtain x q res rest where head: "evs2 = EvMathRandom x # EvExternalDeploymentTransaction q chain res # rest"
      using externalStrategy_head [OF ext] by blast
    have evs: "evs = evs1 @ EvLog fallbackLog # evs2"
      using assms deployStrategies_fallback [OF int [unfolded Inl] ext] by simp
    have phase: "takeWhile (\<lambda>ev. \<not> isExternalAttempt ev) evs = evs1 @ [EvLog fallbackLog, EvMathRandom x]"
      unfolding evs head by (simp add: takeWhile_all [OF quiet])
    have threw: "list_ex internalCallThrew evs1"
      using tr(1) Inl by simp
    have nolog: "\<forall>ev\<in>set evs1. ev \<noteq> EvLog fallbackLog"
      using tr(3) by auto
    have before: "beforeFallback evs = evs1"
      unfolding evs beforeFallback_def by (simp add: takeWhile_all [OF nolog])
    show ?thesis
      unfolding phase before
      using threw none externalStrategy_once [OF ext]
      by (simp add: evs externalAttempts_simps)
  next
    case (Inr d)
    obtain ok w2 evs2 where conf:
      "waitForContractDeployment c client (dep_address d) (dep_hash d) w1 = (ok, w2, evs2)"
      by (cases "waitForContractDeployment c client (dep_address d) (dep_hash d) w1")
    have run: "r = Inr (if ok then DeployedInternal (dep_address d) (dep_hash d)
           else InternalVerificationTimedOut (dep_address d) (dep_hash d))" and evs: "evs = evs1 @ evs2"
      using assms deployStrategies_confirmation [OF int [unfolded Inr] conf] by simp_all
    have none2: "externalAttempts evs2 = 0"
      using waitForContractDeployment_internal [OF conf] .
    then have quiet2: "\<forall>ev\<in>set evs2. \<not> isExternalAttempt ev"
      by (simp add: no_attempts_iff)
    have phase: "takeWhile (\<lambda>ev. \<not> isExternalAttempt ev) evs = evs"
      unfolding evs using quiet quiet2 by (simp add: takeWhile_eq_all_conv)
    have calm: "\<not> list_ex internalCallThrew evs"
      unfolding evs using tr(1) Inr waitForContractDeployment_trace(1) [OF conf] by simp
    have saw: "list_ex sawCode evs \<longleftrightarrow> ok"
      unfolding evs using tr(2) waitForContractDeployment_result [OF conf] by simp
    obtain account request where "EvAccountDeploy account request (Inr d) \<in> set evs1"
      using tr(4) [OF Inr] by blast
    then have sub: "EvAccountDeploy account request (Inr d) \<in> set evs"
      by (simp add: evs)
    show ?thesis
      unfolding phase using calm none none2 sub run saw
      by (auto simp add: evs externalAttempts_simps)
  qed
qed


lemma preambleEvent_other:
  "preambleEvent ev \<Longrightarrow> \<not> isExternalAttempt ev \<and> ev \<noteq> EvLog m \<and> \<not> sawCode ev
     \<and> \<not> internalStepFailed_earlier ev \<and> \<not> isRejectedTopUp ev \<and> \<not> isSmartAccountCreation ev
     \<and> \<not> isAccountDeploy ev"
  by (cases ev) auto

lemma deployOnShard_run:
  assumes "deployOnShard c details args w = (r, w', evs)"
  shows "(list_all preambleEvent evs \<and> \<not> list_ex chainIdAnswered evs)
       \<or> (\<exists>g n params w0 sevs.
            evs = EvGetGasPrice (da_shardId args) (da_shardId args) g
                    # EvChainId (da_shardId args) (Inr n) # sevs
            \<and> deployStrategies c (da_useInternalDeployment args) (da_shardId args) params n w0
                = (r, w', sevs))"
proof -
  obtain r1 w1 where s1: "getGasPrice c (da_shardId args) (da_shardId args) w = (r1, w1)"
    by (cases "getGasPrice c (da_shardId args) (da_shardId args) w")
  obtain r2 w2 where s2: "clientChainId c (da_shardId args) w1 = (r2, w2)"
    by (cases "clientChainId c (da_shardId args) w1")
  show ?thesis
  proof (cases r1)
    case (Inl e)
    with assms s1 show ?thesis
      by (auto simp add: deployOnShard_def run_defs Let_def)
  next
    case g: (Inr gasPrice)
    show ?thesis
    proof (cases r2)
      case (Inl e)
      with assms s1 s2 g show ?thesis
        by (auto simp add: deployOnShard_def run_defs Let_def)
    next
      case (Inr n)
      with assms s1 s2 g show ?thesis
        by (auto simp add: deployOnShard_def run_defs Let_def split: prod.splits)
    qed
  qed
qed

lemma deployContract_run:
  assumes "deployContract c contractTypes args w = (r, w', evs)"
  shows "(list_all preambleEvent evs \<and> \<not> list_ex chainIdAnswered evs)
       \<or> (\<exists>g1 g2 n params w0 r0 sevs.
            evs = EvGetGasPrice (da_shardId args) (da_shardId args) g1
                    # EvGetGasPrice (da_shardId args) (da_shardId args) g2
                    # EvChainId (da_shardId args) (Inr n) # sevs
            \<and> deployStrategies c (da_useInternalDeployment args) (da_shardId args) params n w0
                = (r0, w', sevs)
            \<and> (\<forall>message. r0 = Inr message \<longrightarrow> r = Inr message))"
proof -
  obtain r1 w1 evs1 where inner: "deployContract_try c contractTypes args w = (r1, w1, evs1)"
    by (cases "deployContract_try c contractTypes args w")
  have top: "evs = evs1" "w' = w1" and pass: "\<forall>message. r1 = Inr message \<longrightarrow> r = Inr message"
    using assms inner by (auto simp add: deployContract_def run_defs split: sum.splits)
  obtain g1 wa where s1: "getGasPrice c (da_shardId args) (da_shardId args) w = (g1, wa)"
    by (cases "getGasPrice c (da_shardId args) (da_shardId args) w")
  have "(evs1 = [] \<or> evs1 = [EvGetGasPrice (da_shardId args) (da_shardId args) g1])
     \<or> (\<exists>details evs2. deployOnShard c details args wa = (r1, w1, evs2)
          \<and> evs1 = EvGetGasPrice (da_shardId args) (da_shardId args) g1 # evs2)"
    using inner s1
    by (auto simp add: deployContract_try_def run_defs Let_def
          split: option.splits sum.splits if_splits prod.splits)
  then consider (short) "evs1 = [] \<or> evs1 = [EvGetGasPrice (da_shardId args) (da_shardId args) g1]"
    | (shard) details evs2 where "deployOnShard c details args wa = (r1, w1, evs2)"
        "evs1 = EvGetGasPrice (da_shardId args) (da_shardId args) g1 # evs2"
    by blast
  then show ?thesis
  proof cases
    case short
    then show ?thesis by (auto simp add: top)
  next
    case shard
    from deployOnShard_run [OF shard(1)]
    consider (stopped) "list_all preambleEvent evs2" "\<not> list_ex chainIdAnswered evs2"
      | (reached) g n params w0 sevs where
          "evs2 = EvGetGasPrice (da_shardId args) (da_shardId args) g
                    # EvChainId (da_shardId args) (Inr n) # sevs"
          "deployStrategies c (da_useInternalDeployment args) (da_shardId args) params n w0
                = (r1, w1, sevs)"
      by blast
    then show ?thesis
    proof cases
      case stopped
      then show ?thesis by (simp add: top shard(2))
    next
      case reached
      then show ?thesis unfolding top shard(2) using pass by blast
    qed
  qed
qed


lemma strategyEvents_none:
  assumes "\<not> list_ex chainIdAnswered evs"
  shows "strategyEvents evs = []"
proof -
  have none: "dropWhile (\<lambda>ev. \<not> chainIdAnswered ev) evs = []"
    using assms by (simp add: list_ex_iff)
  show ?thesis
    unfolding strategyEvents_def none by simp
qed

lemma deployContract_internal_requested:
  assumes run: "deployContract c contractTypes args w = (r, w', evs)"
    and req: "da_useInternalDeployment args"
  shows "internalThrew evs \<Longrightarrow>
           EvLog fallbackLog \<in> set evs \<and> externalAttempts evs = 1
           \<and> externalAttempts (beforeFallback evs) = 0"
    and "list_ex chainIdAnswered evs \<Longrightarrow> \<not> internalThrew evs \<Longrightarrow>
           externalAttempts evs = 0 \<and>
           (\<exists>account request d. EvAccountDeploy account request (Inr d) \<in> set evs \<and>
              r = Inr (if list_ex sawCode evs then DeployedInternal (dep_address d) (dep_hash d)
                       else InternalVerificationTimedOut (dep_address d) (dep_hash d)))"
proof -
  from deployContract_run [OF run]
  consider (stopped) "\<not> list_ex chainIdAnswered evs"
    | (reached) g1 g2 n params w0 r0 sevs where
        "evs = EvGetGasPrice (da_shardId args) (da_shardId args) g1
                 # EvGetGasPrice (da_shardId args) (da_shardId args) g2
                 # EvChainId (da_shardId args) (Inr n) # sevs"
        "deployStrategies c True (da_shardId args) params n w0 = (r0, w', sevs)"
        "(\<forall>message. r0 = Inr message \<longrightarrow> r = Inr message)"
    using req by auto
  then have "(internalThrew evs \<longrightarrow>
           EvLog fallbackLog \<in> set evs \<and> externalAttempts evs = 1
           \<and> externalAttempts (beforeFallback evs) = 0)
     \<and> (list_ex chainIdAnswered evs \<and> \<not> internalThrew evs \<longrightarrow>
           externalAttempts evs = 0 \<and>
           (\<exists>account request d. EvAccountDeploy account request (Inr d) \<in> set evs \<and>
              r = Inr (if list_ex sawCode evs then DeployedInternal (dep_address d) (dep_hash d)
                       else InternalVerificationTimedOut (dep_address d) (dep_hash d))))"
  proof cases
    case stopped
    then show ?thesis
      by (simp add: internalThrew_def strategyEvents_none)
  next
    case reached
    have threw: "internalThrew evs =
        list_ex internalCallThrew (takeWhile (\<lambda>ev. \<not> isExternalAttempt ev) sevs)"
      by (simp add: internalThrew_def strategyEvents_def reached(1))
    have before: "externalAttempts (beforeFallback evs) = externalAttempts (beforeFallback sevs)"
      by (simp add: beforeFallback_def reached(1) externalAttempts_simps)
    have count: "externalAttempts evs = externalAttempts sevs"
      by (simp add: reached(1) externalAttempts_simps)
    have saw: "list_ex sawCode evs = list_ex sawCode sevs"
      by (simp add: reached(1))
    note policy = deployStrategies_internal_requested [OF reached(2)]
    show ?thesis
    proof (cases "internalThrew evs")
      case True
      then have "list_ex internalCallThrew (takeWhile (\<lambda>ev. \<not> isExternalAttempt ev) sevs)"
        by (simp add: threw)
      with policy have "EvLog fallbackLog \<in> set sevs" "externalAttempts sevs = 1"
        "externalAttempts (beforeFallback sevs) = 0"
        by simp_all
      moreover have "set sevs \<subseteq> set evs"
        by (auto simp add: reached(1))
      ultimately show ?thesis
        using True unfolding before count by auto
    next
      case False
      with policy have quiet: "externalAttempts sevs = 0"
        and "\<exists>account request d. EvAccountDeploy account request (Inr d) \<in> set sevs \<and>
               r0 = Inr (if list_ex sawCode sevs then DeployedInternal (dep_address d) (dep_hash d)
                         else InternalVerificationTimedOut (dep_address d) (dep_hash d))"
        by (simp_all add: threw)
      then obtain account request d where sub: "EvAccountDeploy account request (Inr d) \<in> set sevs"
        and r0: "r0 = Inr (if list_ex sawCode sevs then DeployedInternal (dep_address d) (dep_hash d)
                         else InternalVerificationTimedOut (dep_address d) (dep_hash d))"
        by blast
      have "EvAccountDeploy account request (Inr d) \<in> set evs"
        using sub by (simp add: reached(1))
      moreover have "r = Inr (if list_ex sawCode evs then DeployedInternal (dep_address d) (dep_hash d)
                       else InternalVerificationTimedOut (dep_address d) (dep_hash d))"
        using reached(3) r0 unfolding saw by simp
      ultimately have "\<exists>account request d. EvAccountDeploy account request (Inr d) \<in> set evs \<and>
              r = Inr (if list_ex sawCode evs then DeployedInternal (dep_address d) (dep_hash d)
                       else InternalVerificationTimedOut (dep_address d) (dep_hash d))"
        by blast
      then show ?thesis
        using False quiet unfolding count by blast
    qed
  qed
  then show "internalThrew evs \<Longrightarrow>
           EvLog fallbackLog \<in> set evs \<and> externalAttempts evs = 1
           \<and> externalAttempts (beforeFallback evs) = 0"
    and "list_ex chainIdAnswered evs \<Longrightarrow> \<not> internalThrew evs \<Longrightarrow>
           externalAttempts evs = 0 \<and>
           (\<exists>account request d. EvAccountDeploy account request (Inr d) \<in> set evs \<and>
              r = Inr (if list_ex sawCode evs then DeployedInternal (dep_address d) (dep_hash d)
                       else InternalVerificationTimedOut (dep_address d) (dep_hash d)))"
    by blast+
qed


lemma fundingEvent_other:
  "fundingEvent ev \<Longrightarrow> \<not> internalStepFailed_earlier ev \<and> ev \<noteq> EvLog m
     \<and> \<not> isExternalAttempt ev \<and> \<not> isSmartAccountCreation ev"
  by (cases ev) auto

lemma tryTopUp_trace:
  "tryTopUp c a amount n w = (r, w', evs) \<Longrightarrow>
     list_all fundingEvent evs \<and> length (filter isRejectedTopUp evs) \<le> n
     \<and> (\<not> r \<longleftrightarrow> length (filter isRejectedTopUp evs) = n)"
  unfolding tryTopUp_def
proof (induction n arbitrary: amount w w' evs r)
  case 0
  then show ?case by (auto simp add: yield_def)
next
  case (Suc n)
  obtain res w1 where call: "topUp c a amount None w = (res, w1)"
    by (cases "topUp c a amount None w")
  show ?case
  proof (cases res)
    case (Inr u)
    with Suc.prems call show ?thesis
      by (auto simp add: run_defs)
  next
    case (Inl e)
    obtain r2 w2 evs2 where rest: "tryTopUp_loop c a (bigint_div amount 2) n w1 = (r2, w2, evs2)"
      by (cases "tryTopUp_loop c a (bigint_div amount 2) n w1")
    note ih = Suc.IH [OF rest]
    from Suc.prems call Inl rest
    have "evs = EvTopUp a amount None (Inl e) # EvSleep 3000 # evs2" "r = r2"
      by (auto simp add: run_defs)
    with ih show ?thesis by auto
  qed
qed

lemma internalAttempt_earlier_trace:
  assumes "internalAttempt_earlier c client request w = (r, w', evs)"
  shows "(\<exists>e. r = Inl e) \<longleftrightarrow>
           list_ex internalStepFailed_earlier evs \<or> length (filter isRejectedTopUp evs) = 3"
    and "EvLog m \<notin> set evs"
    and "list_ex isSmartAccountCreation evs"
    and "\<And>message. r = Inr message \<Longrightarrow> \<exists>a h. message = DeployedInternal a h"
proof -
  obtain r1 w1 where s1: "generateSmartAccount c (dr_shardId request) w = (r1, w1)"
    by (cases "generateSmartAccount c (dr_shardId request) w")
  have "((\<exists>e. r = Inl e) \<longleftrightarrow>
           list_ex internalStepFailed_earlier evs \<or> length (filter isRejectedTopUp evs) = 3)
     \<and> EvLog m \<notin> set evs \<and> list_ex isSmartAccountCreation evs
     \<and> (\<forall>message. r = Inr message \<longrightarrow> (\<exists>a h. message = DeployedInternal a h))"
  proof (cases r1)
    case (Inl e)
    with assms s1 show ?thesis
      by (auto simp add: internalAttempt_earlier_def run_defs)
  next
    case (Inr smartAccount)
    obtain ok w2 fevs where fund: "tryTopUp c smartAccount (dr_feeCredit request) 3 w1 = (ok, w2, fevs)"
      by (cases "tryTopUp c smartAccount (dr_feeCredit request) 3 w1")
    from tryTopUp_trace [OF fund]
    have all: "list_all fundingEvent fevs" and ok: "\<not> ok \<longleftrightarrow> length (filter isRejectedTopUp fevs) = 3"
      by simp_all
    have calm: "\<not> list_ex internalStepFailed_earlier fevs" "EvLog m \<notin> set fevs"
      using all fundingEvent_other by (auto simp add: list_all_iff list_ex_iff)
    show ?thesis
    proof (cases ok)
      case False
      with assms s1 Inr fund ok calm show ?thesis
        by (auto simp add: internalAttempt_earlier_def run_defs)
    next
      case True
      with ok have ne: "length (filter isRejectedTopUp fevs) \<noteq> 3" by simp
      from assms s1 Inr fund True ne calm show ?thesis
        by (auto simp add: internalAttempt_earlier_def run_defs
              split: prod.splits sum.splits if_splits)
    qed
  qed
  then show "(\<exists>e. r = Inl e) \<longleftrightarrow>
           list_ex internalStepFailed_earlier evs \<or> length (filter isRejectedTopUp evs) = 3"
    and "EvLog m \<notin> set evs"
    and "list_ex isSmartAccountCreation evs"
    and "\<And>message. r = Inr message \<Longrightarrow> \<exists>a h. message = DeployedInternal a h"
    by blast+
qed

lemma externalDeployment_earlier_head:
  assumes "externalDeployment_earlier c client request chain w = (r, w', evs)"
  shows "\<exists>res rest. evs = EvExternalDeploymentTransaction request chain res # rest"
  using assms
  by (auto simp add: externalDeployment_earlier_def run_defs Let_def
        split: prod.splits sum.splits if_splits)


lemma deployStrategies_earlier_internal_requested:
  assumes "deployStrategies_earlier c True client request chain w = (r, w', evs)"
  shows "list_ex isSmartAccountCreation evs"
    and "if internalFailed_earlier evs
         then EvLog fallbackLog \<in> set evs \<and> externalAttempts evs = 1
              \<and> externalAttempts (beforeFallback evs) = 0
         else externalAttempts evs = 0 \<and> (\<exists>a h. r = Inr (DeployedInternal a h))"
proof -
  obtain r1 w1 evs1 where int: "internalAttempt_earlier c client request w = (r1, w1, evs1)"
    by (cases "internalAttempt_earlier c client request w")
  note none = internalAttempt_earlier_internal [OF int]
  then have quiet: "\<forall>ev\<in>set evs1. \<not> isExternalAttempt ev"
    by (simp add: no_attempts_iff)
  note tr = internalAttempt_earlier_trace [OF int]
  have "list_ex isSmartAccountCreation evs
     \<and> (if internalFailed_earlier evs
         then EvLog fallbackLog \<in> set evs \<and> externalAttempts evs = 1
              \<and> externalAttempts (beforeFallback evs) = 0
         else externalAttempts evs = 0 \<and> (\<exists>a h. r = Inr (DeployedInternal a h)))"
  proof (cases r1)
    case (Inl e)
    obtain r2 w2 evs2 where ext: "externalDeployment_earlier c client request chain w1 = (r2, w2, evs2)"
      by (cases "externalDeployment_earlier c client request chain w1")
    obtain res rest where head: "evs2 = EvExternalDeploymentTransaction request chain res # rest"
      using externalDeployment_earlier_head [OF ext] by blast
    have evs: "evs = evs1 @ EvLog fallbackLog # evs2"
      using assms deployStrategies_earlier_fallback [OF int [unfolded Inl] ext] by simp
    have phase: "takeWhile (\<lambda>ev. \<not> isExternalAttempt ev) evs = evs1 @ [EvLog fallbackLog]"
      unfolding evs head by (simp add: takeWhile_all [OF quiet])
    have failed: "internalFailed_earlier evs"
      unfolding internalFailed_earlier_def phase using tr(1) Inl by (simp add: Let_def)
    have nolog: "\<forall>ev\<in>set evs1. ev \<noteq> EvLog fallbackLog"
      using tr(2) by auto
    have before: "beforeFallback evs = evs1"
      unfolding evs beforeFallback_def by (simp add: takeWhile_all [OF nolog])
    show ?thesis
      unfolding before
      using failed none externalDeployment_earlier_once [OF ext] tr(3)
      by (simp add: evs externalAttempts_simps)
  next
    case (Inr message)
    with assms int have evs: "evs = evs1" and r: "r = Inr message"
      by (simp_all add: deployStrategies_earlier_def run_defs)
    have phase: "takeWhile (\<lambda>ev. \<not> isExternalAttempt ev) evs = evs1"
      unfolding evs using quiet by (simp add: takeWhile_eq_all_conv)
    have calm: "\<not> internalFailed_earlier evs"
      unfolding internalFailed_earlier_def phase using tr(1) Inr by (simp add: Let_def)
    show ?thesis
      using calm none tr(3) tr(4) [OF Inr] by (simp add: evs r)
  qed
  then show "list_ex isSmartAccountCreation evs"
    and "if internalFailed_earlier evs
         then EvLog fallbackLog \<in> set evs \<and> externalAttempts evs = 1
              \<and> externalAttempts (beforeFallback evs) = 0
         else externalAttempts evs = 0 \<and> (\<exists>a h. r = Inr (DeployedInternal a h))"
    by simp_all
qed

lemma preamble_skipped:
  assumes "list_all preambleEvent pre"
  shows "internalFailed_earlier (pre @ evs) = internalFailed_earlier evs"
    and "externalAttempts (pre @ evs) = externalAttempts evs"
    and "externalAttempts (beforeFallback (pre @ evs)) = externalAttempts (beforeFallback evs)"
    and "list_ex isSmartAccountCreation (pre @ evs) = list_ex isSmartAccountCreation evs"
proof -
  have quiet: "\<forall>ev\<in>set pre. \<not> isExternalAttempt ev"
    and nolog: "\<forall>ev\<in>set pre. ev \<noteq> EvLog fallbackLog"
    and calm: "\<not> list_ex internalStepFailed_earlier pre" "filter isRejectedTopUp pre = []"
      "\<not> list_ex isSmartAccountCreation pre"
    using assms preambleEvent_other by (auto simp add: list_all_iff list_ex_iff filter_empty_conv)
  have zero: "externalAttempts pre = 0"
    using quiet by (simp add: no_attempts_iff)
  show "internalFailed_earlier (pre @ evs) = internalFailed_earlier evs"
    unfolding internalFailed_earlier_def takeWhile_all [OF quiet] using calm by (simp add: Let_def)
  show "externalAttempts (pre @ evs) = externalAttempts evs"
    using zero by (simp add: externalAttempts_simps)
  show "externalAttempts (beforeFallback (pre @ evs)) = externalAttempts (beforeFallback evs)"
    unfolding beforeFallback_def takeWhile_all [OF nolog] using zero by (simp add: externalAttempts_simps)
  show "list_ex isSmartAccountCreation (pre @ evs) = list_ex isSmartAccountCreation evs"
    using calm by simp
qed

lemma deployContract_earlier_run:
  assumes "deployContract_earlier c contractTypes args w = (r, w', evs)"
  shows "\<exists>pre. list_all preambleEvent pre \<and>
           (evs = pre \<or>
            (\<exists>request n w0 r0 sevs. evs = pre @ sevs
               \<and> deployStrategies_earlier c (da_useInternalDeployment args) (da_shardId args)
                    request n w0 = (r0, w', sevs)
               \<and> (\<forall>message. r0 = Inr message \<longrightarrow> r = Inr message)))"
proof -
  obtain r1 w1 where s1: "getGasPrice c (da_shardId args) (da_shardId args) w = (r1, w1)"
    by (cases "getGasPrice c (da_shardId args) (da_shardId args) w")
  obtain r2 w2 where s2: "clientChainId c (da_shardId args) w1 = (r2, w2)"
    by (cases "clientChainId c (da_shardId args) w1")
  show ?thesis
  proof (cases "\<exists>g n salt details. r1 = Inr g \<and> r2 = Inr n
      \<and> BigInt_of_hex_literal (''0x'' @ buffer_toString_hex (fst (randomBytes c 8 w2))) = Inr salt
      \<and> map_of contractTypes (da_contractType args) = Some details")
    case False
    have "list_all preambleEvent evs"
      using assms s1 s2 False
      by (auto simp add: deployContract_earlier_def generateRandomSalt_crypto_run run_defs Let_def
            split: sum.splits prod.splits option.splits)
    then show ?thesis by blast
  next
    case True
    then obtain g n salt details where ok: "r1 = Inr g" "r2 = Inr n"
      "BigInt_of_hex_literal (''0x'' @ buffer_toString_hex (fst (randomBytes c 8 w2))) = Inr salt"
      "map_of contractTypes (da_contractType args) = Some details"
      by blast
    define request where "request = \<lparr>dr_bytecode = convertToHex (cd_bytecode details),
       dr_abi = (case cd_abi details of None \<Rightarrow> [] | Some abi \<Rightarrow> abi),
       dr_args = (case da_constructorArgs args of None \<Rightarrow> [] | Some xs \<Rightarrow> xs),
       dr_feeCredit = DEFAULT_GAS_MULTIPLIER * g, dr_salt = salt, dr_shardId = da_shardId args\<rparr>"
    obtain r0 w0 sevs where strat:
      "deployStrategies_earlier c (da_useInternalDeployment args) (da_shardId args) request n
         (snd (randomBytes c 8 w2)) = (r0, w0, sevs)"
      by (cases "deployStrategies_earlier c (da_useInternalDeployment args) (da_shardId args) request n
         (snd (randomBytes c 8 w2))")
    have "evs = [EvGetGasPrice (da_shardId args) (da_shardId args) (Inr g),
                 EvChainId (da_shardId args) (Inr n),
                 EvRandomBytes 8 (fst (randomBytes c 8 w2))] @ sevs"
      and "w' = w0" and "(\<forall>message. r0 = Inr message \<longrightarrow> r = Inr message)"
      using assms s1 s2 ok strat [unfolded request_def]
      by (auto simp add: deployContract_earlier_def generateRandomSalt_crypto_run run_defs Let_def
            split: sum.splits)
    moreover have "list_all preambleEvent [EvGetGasPrice (da_shardId args) (da_shardId args) (Inr g),
                 EvChainId (da_shardId args) (Inr n),
                 EvRandomBytes 8 (fst (randomBytes c 8 w2))]"
      by simp
    ultimately show ?thesis
      using strat by blast
  qed
qed

lemma deployContract_earlier_internal_requested:
  assumes run: "deployContract_earlier c contractTypes args w = (r, w', evs)"
    and req: "da_useInternalDeployment args"
  shows "internalFailed_earlier evs \<Longrightarrow>
           EvLog fallbackLog \<in> set evs \<and> externalAttempts evs = 1
           \<and> externalAttempts (beforeFallback evs) = 0"
    and "list_ex isSmartAccountCreation evs \<Longrightarrow> \<not> internalFailed_earlier evs \<Longrightarrow>
           externalAttempts evs = 0 \<and> (\<exists>a h. r = Inr (DeployedInternal a h))"
proof -
  from deployContract_earlier_run [OF run] obtain pre where pre: "list_all preambleEvent pre"
    and shape0: "evs = pre \<or>
            (\<exists>request n w0 r0 sevs. evs = pre @ sevs
               \<and> deployStrategies_earlier c (da_useInternalDeployment args) (da_shardId args)
                    request n w0 = (r0, w', sevs)
               \<and> (\<forall>message. r0 = Inr message \<longrightarrow> r = Inr message))"
    by blast
  have shape: "evs = pre \<or>
            (\<exists>request n w0 r0 sevs. evs = pre @ sevs
               \<and> deployStrategies_earlier c True (da_shardId args) request n w0 = (r0, w', sevs)
               \<and> (\<forall>message. r0 = Inr message \<longrightarrow> r = Inr message))"
    using shape0 req by simp
  note skip = preamble_skipped [OF pre]
  from shape have "(internalFailed_earlier evs \<longrightarrow>
           EvLog fallbackLog \<in> set evs \<and> externalAttempts evs = 1
           \<and> externalAttempts (beforeFallback evs) = 0)
     \<and> (list_ex isSmartAccountCreation evs \<and> \<not> internalFailed_earlier evs \<longrightarrow>
           externalAttempts evs = 0 \<and> (\<exists>a h. r = Inr (DeployedInternal a h)))"
  proof (elim disjE exE conjE)
    assume "evs = pre"
    then have "evs = pre @ []" by simp
    then show ?thesis
      unfolding \<open>evs = pre @ []\<close> skip by (simp add: internalFailed_earlier_def)
  next
    fix request n w0 r0 sevs
    assume evs: "evs = pre @ sevs"
      and strat: "deployStrategies_earlier c True (da_shardId args) request n w0 = (r0, w', sevs)"
      and r: "(\<forall>message. r0 = Inr message \<longrightarrow> r = Inr message)"
    note policy = deployStrategies_earlier_internal_requested(2) [OF strat]
    show ?thesis
    proof (cases "internalFailed_earlier sevs")
      case True
      with policy have "EvLog fallbackLog \<in> set sevs" "externalAttempts sevs = 1"
        "externalAttempts (beforeFallback sevs) = 0"
        by simp_all
      then show ?thesis
        unfolding evs skip using True by simp
    next
      case False
      with policy have "externalAttempts sevs = 0" "\<exists>a h. r0 = Inr (DeployedInternal a h)"
        by simp_all
      then show ?thesis
        unfolding evs skip using False r by auto
    qed
  qed
  then show "internalFailed_earlier evs \<Longrightarrow>
           EvLog fallbackLog \<in> set evs \<and> externalAttempts evs = 1
           \<and> externalAttempts (beforeFallback evs) = 0"
    and "list_ex isSmartAccountCreation evs \<Longrightarrow> \<not> internalFailed_earlier evs \<Longrightarrow>
           externalAttempts evs = 0 \<and> (\<exists>a h. r = Inr (DeployedInternal a h))"
    by blast+
qed


text \<open>Runs of both providers on the scenario collaborators.\<close>

lemma earlier_salt:
  assumes "randomBytes c 8 w = (replicate 8 255, w)"
  shows "generateRandomSalt_crypto c w =
     (Inr 18446744073709551615, w, [EvRandomBytes 8 [255, 255, 255, 255, 255, 255, 255, 255]])"
proof -
  have bytes: "randomBytes c 8 w = ([255, 255, 255, 255, 255, 255, 255, 255], w)"
    using assms by (simp add: numeral_eq_Suc)
  have "BigInt_of_hex_literal (''0x'' @ buffer_toString_hex [255, 255, 255, 255, 255, 255, 255, 255])
          = Inr (bigEndian 0 [255, 255, 255, 255, 255, 255, 255, 255])"
    by (rule crypto_salt_value) simp
  then show ?thesis
    unfolding generateRandomSalt_crypto_run bytes by simp
qed

lemma half_salt: "math_floor (js_multiply (Double 1 (- 1)) (Double 10000 0)) = 5000"
  by (simp add: js_multiply_def to_double_def math_floor_def bitlen_le_iff_power)

lemmas current_defs = deployContract_def deployContract_try_def deployOnShard_def deployStrategies_def
  deployContractInternal_def deployContractExternal_def externalStrategy_def
  waitForContractDeployment_def ensureAdequateFunding_def attempts_def bigint_div_def
  generateRandomSalt_run half_salt constructorArgsFor_def feeCreditFor_values
  counterTypes_def internalCounter_def externalCounter_def run_defs Let_def

lemmas earlier_defs = deployContract_earlier_def deployStrategies_earlier_def internalAttempt_earlier_def
  externalDeployment_earlier_def tryTopUp_def numeral_3_eq_3 bigint_div_def earlier_salt
  convertToHex_def trim_def isWhitespace_def DEFAULT_GAS_MULTIPLIER_def
  counterTypes_def internalCounter_def externalCounter_def run_defs Let_def




lemma rejecting_run:
  "deployContract rejectingLedger counterTypes internalCounter 0 =
     (Inr (DeployedExternal (bytesToHex [1, 2]) ''0x22''), 720,
      [EvGetGasPrice 1 1 (Inr 10), EvGetGasPrice 1 1 (Inr 10), EvChainId 1 (Inr 1),
       EvGetGasPrice 1 1 (Inr 10), EvMathRandom (Double 1 (- 1)),
       EvGenerateSmartAccount 1 (Inr ''0xacc''), EvGetBalance 1 ''0xacc'' (Inr 0), EvSleep 5000,
       EvAccountDeploy ''0xacc'' counterRequest (Inl (Error ''submission failed'')),
       EvLog fallbackLog, EvMathRandom (Double 1 (- 1)),
       EvExternalDeploymentTransaction (counterRequest\<lparr>dr_feeCredit := 120\<rparr>) 1
         (Inr (counterTx (counterRequest\<lparr>dr_feeCredit := 120\<rparr>))),
       EvGetBalance 1 (bytesToHex [1, 2]) (Inr 0),
       EvTopUp (bytesToHex [1, 2]) 720 (Some ''NIL'') (Inr ()),
       EvGetBalance 1 (bytesToHex [1, 2]) (Inr 720), EvSleep 5000,
       EvSend 1 (counterTx (counterRequest\<lparr>dr_feeCredit := 120\<rparr>)) (Inr ''0x22''),
       EvWaitTillCompleted 1 ''0x22'' (Inr ()),
       EvGetReceipt 1 ''0x22'' (Inr (Some \<lparr>rc_status = ''Success''\<rparr>)),
       EvGetCode 1 (bytesToHex [1, 2]) (Inr (CodeString ''0x6080''))])"
  by (simp add: current_defs codePolling.simps rejectingLedger_def testnet_def counterRequest_def
        counterTx_def)

lemma poor_run:
  "deployContract poorLedger counterTypes internalCounter 0 =
     (Inr (InternalVerificationTimedOut ''0xc1'' ''0x11''), 20000000,
      [EvGetGasPrice 1 1 (Inr 10), EvGetGasPrice 1 1 (Inr 10), EvChainId 1 (Inr 1),
       EvGetGasPrice 1 1 (Inr 10), EvMathRandom (Double 1 (- 1)),
       EvGenerateSmartAccount 1 (Inr ''0xacc''), EvGetBalance 1 ''0xacc'' (Inr 0), EvSleep 5000,
       EvAccountDeploy ''0xacc'' counterRequest
         (Inr \<lparr>dep_hash = ''0x11'', dep_address = ''0xc1''\<rparr>),
       EvTopUp ''0xc1'' 20000000 (Some ''NIL'') (Inr ()), EvSleep 5000,
       EvWaitTillCompleted 1 ''0x11'' (Inr ()),
       EvGetReceipt 1 ''0x11'' (Inr (Some \<lparr>rc_status = ''InsufficientFunds''\<rparr>))])"
  by (simp add: current_defs poorLedger_def testnet_def counterRequest_def)

lemma closed_earlier_run:
  "deployContract_earlier closedFaucet counterTypes internalCounter 0 =
     (Inl (ContractDeploymentError ''COUNTER''
             ''Failed to fund contract address after multiple attempts''), 0,
      [EvGetGasPrice 1 1 (Inr 10), EvChainId 1 (Inr 1),
       EvRandomBytes 8 [255, 255, 255, 255, 255, 255, 255, 255],
       EvGenerateSmartAccount 1 (Inr ''0xacc''),
       EvTopUp ''0xacc'' 10000000 None (Inl (Error ''faucet unavailable'')), EvSleep 3000,
       EvTopUp ''0xacc'' 5000000 None (Inl (Error ''faucet unavailable'')), EvSleep 3000,
       EvTopUp ''0xacc'' 2500000 None (Inl (Error ''faucet unavailable'')), EvSleep 3000,
       EvLog fallbackLog,
       EvExternalDeploymentTransaction cryptoRequest 1 (Inr (counterTx cryptoRequest)),
       EvTopUp (bytesToHex [1, 2]) 10000000 None (Inl (Error ''faucet unavailable'')), EvSleep 3000,
       EvTopUp (bytesToHex [1, 2]) 5000000 None (Inl (Error ''faucet unavailable'')), EvSleep 3000,
       EvTopUp (bytesToHex [1, 2]) 2500000 None (Inl (Error ''faucet unavailable'')),
       EvSleep 3000])"
  by (simp add: earlier_defs closedFaucet_def testnet_def cryptoRequest_def counterRequest_def
        counterTx_def)

lemma silent_earlier_run:
  "deployContract_earlier silentLedger counterTypes internalCounter 0 =
     (Inl (ContractDeploymentError ''COUNTER''
             ''Contract deployment failed - no code at address''), 20000000,
      [EvGetGasPrice 1 1 (Inr 10), EvChainId 1 (Inr 1),
       EvRandomBytes 8 [255, 255, 255, 255, 255, 255, 255, 255],
       EvGenerateSmartAccount 1 (Inr ''0xacc''),
       EvTopUp ''0xacc'' 10000000 None (Inr ()), EvSleep 5000,
       EvAccountDeploy ''0xacc'' cryptoRequest
         (Inr \<lparr>dep_hash = ''0x11'', dep_address = ''0xc1''\<rparr>),
       EvSleep 5000, EvWaitTillCompleted 1 ''0x11'' (Inr ()),
       EvGetCode 1 ''0xc1'' (Inr (CodeString ''0x'')),
       EvLog fallbackLog,
       EvExternalDeploymentTransaction cryptoRequest 1 (Inr (counterTx cryptoRequest)),
       EvTopUp (bytesToHex [1, 2]) 10000000 None (Inr ()), EvSleep 5000,
       EvSend 1 (counterTx cryptoRequest) (Inr ''0x22''),
       EvSleep 5000, EvWaitTillCompleted 1 ''0x22'' (Inr ()),
       EvGetCode 1 (bytesToHex [1, 2]) (Inr (CodeString ''0x''))])"
  by (simp add: earlier_defs silentLedger_def testnet_def cryptoRequest_def counterRequest_def
        counterTx_def)

lemma testnet_earlier_run:
  "deployContract_earlier testnet counterTypes internalCounter 0 =
     (Inr (DeployedInternal ''0xc1'' ''0x11''), 10000000,
      [EvGetGasPrice 1 1 (Inr 10), EvChainId 1 (Inr 1),
       EvRandomBytes 8 [255, 255, 255, 255, 255, 255, 255, 255],
       EvGenerateSmartAccount 1 (Inr ''0xacc''),
       EvTopUp ''0xacc'' 10000000 None (Inr ()), EvSleep 5000,
       EvAccountDeploy ''0xacc'' cryptoRequest
         (Inr \<lparr>dep_hash = ''0x11'', dep_address = ''0xc1''\<rparr>),
       EvSleep 5000, EvWaitTillCompleted 1 ''0x11'' (Inr ()),
       EvGetCode 1 ''0xc1'' (Inr (CodeString ''0x6080''))])"
  by (simp add: earlier_defs testnet_def cryptoRequest_def counterRequest_def)

lemma internalCounter_requested: "da_useInternalDeployment internalCounter"
  by (simp add: internalCounter_def externalCounter_def)

lemmas observer_defs = internalThrew_def strategyEvents_def beforeFallback_def
  internalFailed_earlier_def events_of_def result_of_def externalAttempts_simps

text \<open>
  Claim C2, as amended. In every run of \<open>deployContract\<close>, of either provider, the external
  strategy is attempted at most once. In the nil-contract provider, when internal deployment
  is requested and a call of \<open>deployContractInternal\<close> throws (the gas price, the deployer
  account, its balance, the submission or the top-up of the new address), the fallback is
  logged, no external attempt precedes the log, and the run holds exactly one external
  attempt. When internal deployment is requested, the strategies are reached and no such
  call throws, there is no external attempt at all: the internal deployment was submitted
  and \<open>deployContract\<close> returns the success message if a code poll saw code and the
  verification-timed-out message otherwise. In the earlier provider, when internal
  deployment is requested and the internal deployment fails (a call throws, three faucet
  requests are rejected, or the code read returns empty code), the fallback is logged and
  followed by the only external attempt; when it was started and did not fail, the result is
  the internal success message and there is no external attempt.
\<close>

theorem fallback_after_internal_failure:
  "(let evs = events_of (deployContract c contractTypes args w);
        r = result_of (deployContract c contractTypes args w)
    in externalAttempts evs \<le> 1
       \<and> (da_useInternalDeployment args \<and> internalThrew evs \<longrightarrow>
            EvLog fallbackLog \<in> set evs \<and> externalAttempts evs = 1
            \<and> externalAttempts (beforeFallback evs) = 0)
       \<and> (da_useInternalDeployment args \<and> list_ex chainIdAnswered evs \<and> \<not> internalThrew evs \<longrightarrow>
            externalAttempts evs = 0
            \<and> (\<exists>account request d. EvAccountDeploy account request (Inr d) \<in> set evs
                 \<and> r = Inr (if list_ex sawCode evs
                            then DeployedInternal (dep_address d) (dep_hash d)
                            else InternalVerificationTimedOut (dep_address d) (dep_hash d)))))
   \<and> (let evs = events_of (deployContract_earlier c contractTypes args w);
          r = result_of (deployContract_earlier c contractTypes args w)
      in externalAttempts evs \<le> 1
         \<and> (da_useInternalDeployment args \<and> internalFailed_earlier evs \<longrightarrow>
              EvLog fallbackLog \<in> set evs \<and> externalAttempts evs = 1
              \<and> externalAttempts (beforeFallback evs) = 0)
         \<and> (da_useInternalDeployment args \<and> list_ex isSmartAccountCreation evs
               \<and> \<not> internalFailed_earlier evs \<longrightarrow>
              externalAttempts evs = 0 \<and> (\<exists>a h. r = Inr (DeployedInternal a h))))"
proof -
  obtain r w' evs where run: "deployContract c contractTypes args w = (r, w', evs)"
    by (cases "deployContract c contractTypes args w")
  obtain r2 w2 evs2 where earlier: "deployContract_earlier c contractTypes args w = (r2, w2, evs2)"
    by (cases "deployContract_earlier c contractTypes args w")
  show ?thesis
    unfolding run earlier events_of_def result_of_def Let_def fst_conv snd_conv
    using deployContract_at_most_once [OF run] deployContract_internal_requested [OF run]
      deployContract_earlier_at_most_once [OF earlier]
      deployContract_earlier_internal_requested [OF earlier]
    by blast
qed

theorem fallback_after_internal_failure_witness:
  "da_useInternalDeployment internalCounter
   \<and> internalThrew (events_of (deployContract rejectingLedger counterTypes internalCounter 0))
   \<and> externalAttempts (events_of (deployContract rejectingLedger counterTypes internalCounter 0)) = 1
   \<and> list_ex chainIdAnswered (events_of (deployContract poorLedger counterTypes internalCounter 0))
   \<and> \<not> internalThrew (events_of (deployContract poorLedger counterTypes internalCounter 0))
   \<and> externalAttempts (events_of (deployContract poorLedger counterTypes internalCounter 0)) = 0
   \<and> internalFailed_earlier (events_of (deployContract_earlier closedFaucet counterTypes internalCounter 0))
   \<and> externalAttempts (events_of (deployContract_earlier closedFaucet counterTypes internalCounter 0)) = 1
   \<and> internalFailed_earlier (events_of (deployContract_earlier silentLedger counterTypes internalCounter 0))
   \<and> externalAttempts (events_of (deployContract_earlier silentLedger counterTypes internalCounter 0)) = 1
   \<and> list_ex isSmartAccountCreation (events_of (deployContract_earlier testnet counterTypes internalCounter 0))
   \<and> \<not> internalFailed_earlier (events_of (deployContract_earlier testnet counterTypes internalCounter 0))
   \<and> result_of (deployContract_earlier testnet counterTypes internalCounter 0) =
       Inr (DeployedInternal ''0xc1'' ''0x11'')"
  using fallback_after_internal_failure [of rejectingLedger counterTypes internalCounter 0]
    fallback_after_internal_failure [of poorLedger counterTypes internalCounter 0]
    fallback_after_internal_failure [of closedFaucet counterTypes internalCounter 0]
    fallback_after_internal_failure [of silentLedger counterTypes internalCounter 0]
    fallback_after_internal_failure [of testnet counterTypes internalCounter 0]
  by (simp add: rejecting_run poor_run closed_earlier_run silent_earlier_run testnet_earlier_run
        observer_defs internalCounter_requested Let_def)

text \<open>
  The claim as stated fails when the internal deployment's receipt reports insufficient
  funds: \<open>deployContract\<close> returns without any external attempt.
\<close>

theorem internal_confirmation_failure_returns:
  "result_of (deployContract poorLedger counterTypes internalCounter 0) =
     Inr (InternalVerificationTimedOut ''0xc1'' ''0x11'')
   \<and> externalAttempts (events_of (deployContract poorLedger counterTypes internalCounter 0)) = 0"
  by (simp add: poor_run result_of_def events_of_def externalAttempts_simps)

end
